theory Spec2Isabelle
  imports Complex_Main "HOL-Library.Word" "HOL-Library.Char_ord" "HOL-Library.List_Lexorder"
begin

unbundle bit_operations_syntax

section \<open>Shared configuration of both converters\<close>

text \<open>
  The two scripts \<^verbatim>\<open>map/bin_to_tiled.py\<close> (binary level to Tiled map, the forward codec)
  and \<^verbatim>\<open>tiled_to_bin.py\<close> (Tiled map to binary level, the reverse codec) share their
  configuration tables. Python integers are \<open>int\<close>, bytes are \<open>8 word\<close>, and Python
  floats are idealised as exact rationals (the tolerance 0.1 is one tenth). The theorems
  below that hold for all regions and strides compare two runs of the same computation
  or count bytes; the others use numbers that a float holds exactly, and compare the
  tolerance with integers far from it.
\<close>

type_synonym byte = "8 word"

definition TILE_SIZE :: int where
  "TILE_SIZE = 128"

datatype layer_type = TYPE_AUTOTILE | TYPE_FLIP | TYPE_SIMPLE

definition BINARY_WRITE_ORDER :: "string list" where
  "BINARY_WRITE_ORDER =
    [''constructmap'', ''constructmapedges'', ''constructbackground'',
     ''constructbackground/backgroundfeatures'', ''Map'', ''Mapedges'',
     ''Mapbackground'', ''paths'', ''features'', ''roofmap'', ''foliage'',
     ''shards'', ''watermap'', ''cummap'', ''spawnmarker'',
     ''destructiblefeatures'', ''watermaptops'']"

definition BINARY_READ_ORDER :: "string list" where
  "BINARY_READ_ORDER = BINARY_WRITE_ORDER"

definition LAYER_TYPES :: "(string \<times> layer_type) list" where
  "LAYER_TYPES =
    [(''constructmap'', TYPE_AUTOTILE), (''constructmapedges'', TYPE_AUTOTILE),
     (''constructbackground'', TYPE_AUTOTILE), (''Map'', TYPE_AUTOTILE),
     (''Mapedges'', TYPE_AUTOTILE), (''Mapbackground'', TYPE_AUTOTILE),
     (''roofmap'', TYPE_AUTOTILE), (''watermap'', TYPE_AUTOTILE),
     (''constructbackground/backgroundfeatures'', TYPE_FLIP), (''features'', TYPE_FLIP),
     (''foliage'', TYPE_FLIP), (''cummap'', TYPE_FLIP), (''destructiblefeatures'', TYPE_FLIP),
     (''paths'', TYPE_SIMPLE), (''shards'', TYPE_SIMPLE),
     (''spawnmarker'', TYPE_SIMPLE), (''watermaptops'', TYPE_SIMPLE)]"

text \<open>\<^verbatim>\<open>LAYER_TYPES.get(layer_name, TYPE_SIMPLE)\<close>\<close>

definition LAYER_TYPES_get :: "string \<Rightarrow> layer_type" where
  "LAYER_TYPES_get layer_name =
    (case map_of LAYER_TYPES layer_name of None \<Rightarrow> TYPE_SIMPLE | Some t \<Rightarrow> t)"

definition FLIPPED_HORIZONTALLY_FLAG :: int where
  "FLIPPED_HORIZONTALLY_FLAG = 0x80000000"

definition GID_MASK :: int where
  "GID_MASK = 0x1FFFFFFF"

text \<open>
  The exceptions the modelled code can raise: a float division by zero
  (\<^verbatim>\<open>offset_x / definition.stride[0]\<close>), an integer modulo by zero
  (\<^verbatim>\<open>i % map_width\<close>), \<^verbatim>\<open>struct.error\<close> of \<^verbatim>\<open>struct.pack('B', v)\<close> for a value
  outside \<open>0..255\<close>, and an index outside a list.
\<close>

datatype error = ZeroDivisionError | StructError | IndexError

text \<open>
  Python's \<^verbatim>\<open>round\<close> of a float rounds to the nearest integer and a tie to the even
  neighbour.
\<close>

definition py_round :: "rat \<Rightarrow> int" where
  "py_round q =
    (let f = \<lfloor>q\<rfloor>; r = q - of_int f
     in if r < 1 / 2 then f else if 1 / 2 < r then f + 1 else if even f then f else f + 1)"

text \<open>Python's \<^verbatim>\<open>a in b\<close> on strings: \<open>a\<close> occurs in \<open>b\<close> as a contiguous substring.\<close>

fun startswith :: "string \<Rightarrow> string \<Rightarrow> bool" where
  "startswith s [] = True"
| "startswith [] (p # ps) = False"
| "startswith (c # s) (p # ps) = (c = p \<and> startswith s ps)"

fun str_in :: "string \<Rightarrow> string \<Rightarrow> bool" where
  "str_in a [] = (a = [])"
| "str_in a (c # b) = (startswith (c # b) a \<or> str_in a b)"

text \<open>\<^verbatim>\<open>s.replace('\\', '/')\<close>; the backslash is character \<open>0x5C\<close>.\<close>

definition replace_backslash :: "string \<Rightarrow> string" where
  "replace_backslash s = map (\<lambda>c. if c = CHR 0x5C then CHR ''/'' else c) s"

section \<open>The reverse codec: \<^verbatim>\<open>tiled_to_bin.py\<close>\<close>

text \<open>
  Class \<^verbatim>\<open>TileDefinition\<close>: \<open>region\<close> is the list \<^verbatim>\<open>[x, y, w, h]\<close> and \<open>stride\<close> the
  list \<^verbatim>\<open>[w, h]\<close> of floats. The class of the forward codec has one more field,
  \<open>tile_mode\<close>, and is the extension \<open>TileDefinitionM\<close> of this record.
\<close>

record TileDefinition =
  godot_id :: int
  texture_path :: string
  region :: "rat \<times> rat \<times> rat \<times> rat"
  stride :: "rat \<times> rat"

record TileDefinitionM = TileDefinition +
  tile_mode :: int

text \<open>
  Class \<^verbatim>\<open>TilesetInfo\<close>; \<open>image_path\<close> is \<^verbatim>\<open>None\<close> when the tileset file could not be
  read. The field \<^verbatim>\<open>source_tsx\<close> is a file name that no computation below reads.
\<close>

record TilesetInfo =
  firstgid :: int
  image_path :: "string option"
  columns :: int

text \<open>The test of lines 117 and 118: the region contains the pixel, with tolerance 0.1.\<close>

definition in_region :: "rat \<times> rat \<times> rat \<times> rat \<Rightarrow> int \<Rightarrow> int \<Rightarrow> bool" where
  "in_region r pixel_x pixel_y =
    (case r of (rx, ry, rw, rh) \<Rightarrow>
      rx - 1 / 10 \<le> of_int pixel_x \<and> of_int pixel_x < rx + rw - 1 / 10 \<and>
      ry - 1 / 10 \<le> of_int pixel_y \<and> of_int pixel_y < ry + rh - 1 / 10)"

text \<open>
  The test of lines 113 to 115 that skips a definition: the atlas path is truthy (neither
  \<^verbatim>\<open>None\<close> nor empty) and neither path is a substring of the other.
\<close>

definition path_rejected :: "string option \<Rightarrow> string \<Rightarrow> bool" where
  "path_rejected tp def_path =
    (case tp of
       None \<Rightarrow> False
     | Some p \<Rightarrow> p \<noteq> [] \<and> \<not> str_in def_path p \<and> \<not> str_in p def_path)"

text \<open>The loop of \<^verbatim>\<open>get_godot_tile_from_pixel\<close> over \<^verbatim>\<open>layer_defs\<close>, lines 112 to 124.\<close>

fun search_defs ::
  "TileDefinition list \<Rightarrow> string option \<Rightarrow> int \<Rightarrow> int \<Rightarrow> error + (int option \<times> int \<times> int)" where
  "search_defs [] tp pixel_x pixel_y = Inr (None, 0, 0)"
| "search_defs (d # ds) tp pixel_x pixel_y =
    (if path_rejected tp (texture_path d) then search_defs ds tp pixel_x pixel_y
     else if in_region (region d) pixel_x pixel_y then
       (case region d of (rx, ry, rw, rh) \<Rightarrow>
         (case stride d of (sw, sh) \<Rightarrow>
           if sw = 0 then Inl ZeroDivisionError
           else if sh = 0 then Inl ZeroDivisionError
           else Inr (Some (godot_id d),
                     py_round ((of_int pixel_x - rx) / sw),
                     py_round ((of_int pixel_y - ry) / sh))))
     else search_defs ds tp pixel_x pixel_y)"

definition get_godot_tile_from_pixel ::
  "TileDefinition list \<Rightarrow> string option \<Rightarrow> int \<Rightarrow> int \<Rightarrow> error + (int option \<times> int \<times> int)" where
  "get_godot_tile_from_pixel layer_defs tp pixel_x pixel_y =
    search_defs layer_defs
      (case tp of None \<Rightarrow> None | Some p \<Rightarrow> if p \<noteq> [] then Some (replace_backslash p) else Some p)
      pixel_x pixel_y"

text \<open>Lines 205 to 209: the first tileset, in the sorted list, whose \<open>firstgid\<close> is at most the GID.\<close>

definition find_tileset :: "TilesetInfo list \<Rightarrow> int \<Rightarrow> TilesetInfo option" where
  "find_tileset tilesets gid = find (\<lambda>ts. firstgid ts \<le> gid) tilesets"

text \<open>Lines 220 and 221: the grid coordinate of a local id inside its atlas.\<close>

definition img_grid :: "TilesetInfo \<Rightarrow> int \<Rightarrow> int \<times> int" where
  "img_grid ts local_id =
    (if columns ts > 0 then local_id mod columns ts else 0,
     if columns ts > 0 then local_id div columns ts else 0)"

text \<open>
  Lines 200 to 241: from the masked GID to \<^verbatim>\<open>(final_id, auto_x, auto_y)\<close>.
\<close>

definition resolve_gid ::
  "TilesetInfo list \<Rightarrow> TileDefinition list \<Rightarrow> string \<Rightarrow> int \<Rightarrow> error + (int \<times> int \<times> int)" where
  "resolve_gid tilesets defs layer_name gid =
    (if gid > 0 then
       (case find_tileset tilesets gid of
          None \<Rightarrow> Inr (0, 0, 0)
        | Some target_ts \<Rightarrow>
            (let local_id = gid - firstgid target_ts in
             if layer_name = ''spawnmarker'' then Inr (local_id + 1, 0, 0)
             else
               (case img_grid target_ts local_id of (img_grid_x, img_grid_y) \<Rightarrow>
                 (case get_godot_tile_from_pixel defs (image_path target_ts)
                         (img_grid_x * TILE_SIZE) (img_grid_y * TILE_SIZE) of
                    Inl e \<Rightarrow> Inl e
                  | Inr (Some gd, ax, ay) \<Rightarrow> Inr (gd + 1, ax, ay)
                  | Inr (None, ax, ay) \<Rightarrow>
                      if layer_name = ''Mapbackground'' then
                        (case defs of
                           [] \<Rightarrow> Inr (0, 0, 0)
                         | d0 # _ \<Rightarrow> Inr (godot_id d0 + 1, img_grid_x, img_grid_y))
                      else Inr (0, 0, 0)))))
     else Inr (0, 0, 0))"

text \<open>\<^verbatim>\<open>struct.pack('B', v)\<close>: one unsigned byte, \<^verbatim>\<open>struct.error\<close> outside \<open>0..255\<close>.\<close>

definition pack_B :: "int \<Rightarrow> error + byte" where
  "pack_B v = (if 0 \<le> v \<and> v \<le> 255 then Inr (word_of_int v) else Inl StructError)"

text \<open>Lines 197 and 198: the flip flag and the masked GID of a raw cell value.\<close>

definition flipped_h :: "int \<Rightarrow> bool" where
  "flipped_h raw_gid = (raw_gid AND FLIPPED_HORIZONTALLY_FLAG \<noteq> 0)"

definition masked_gid :: "int \<Rightarrow> int" where
  "masked_gid raw_gid = raw_gid AND GID_MASK"

text \<open>Lines 243 to 248: the bytes written for one cell.\<close>

definition emit_cell :: "layer_type \<Rightarrow> bool \<Rightarrow> int \<times> int \<times> int \<Rightarrow> error + byte list" where
  "emit_cell layer_ty flipped t =
    (case t of (final_id, auto_x, auto_y) \<Rightarrow>
      (case pack_B final_id of
         Inl e \<Rightarrow> Inl e
       | Inr b0 \<Rightarrow>
           (case layer_ty of
              TYPE_AUTOTILE \<Rightarrow>
                (case pack_B auto_x of
                   Inl e \<Rightarrow> Inl e
                 | Inr b1 \<Rightarrow>
                     (case pack_B auto_y of Inl e \<Rightarrow> Inl e | Inr b2 \<Rightarrow> Inr [b0, b1, b2]))
            | TYPE_FLIP \<Rightarrow>
                (case pack_B (if flipped then 1 else 0) of
                   Inl e \<Rightarrow> Inl e
                 | Inr b1 \<Rightarrow> Inr [b0, b1])
            | TYPE_SIMPLE \<Rightarrow> Inr [b0])))"

text \<open>Lines 197 to 248: one cell of the interchange grid to its bytes.\<close>

definition write_cell ::
  "TilesetInfo list \<Rightarrow> TileDefinition list \<Rightarrow> string \<Rightarrow> layer_type \<Rightarrow> int \<Rightarrow> error + byte list" where
  "write_cell tilesets defs layer_name layer_ty raw_gid =
    (case resolve_gid tilesets defs layer_name (masked_gid raw_gid) of
       Inl e \<Rightarrow> Inl e
     | Inr t \<Rightarrow> emit_cell layer_ty (flipped_h raw_gid) t)"

text \<open>
  A sequence of writes: the bytes of all of them in order, or the first exception. The
  file a raised exception leaves behind is not modelled: \<open>Inl\<close> says that the conversion
  aborted.
\<close>

fun run_all :: "(error + byte list) list \<Rightarrow> error + byte list" where
  "run_all [] = Inr []"
| "run_all (r # rs) =
    (case r of
       Inl e \<Rightarrow> Inl e
     | Inr bs \<Rightarrow> (case run_all rs of Inl e \<Rightarrow> Inl e | Inr cs \<Rightarrow> Inr (bs @ cs)))"

text \<open>
  Line 196, \<^verbatim>\<open>grid[x][y] if grid else 0\<close>: a layer absent from the map has no grid
  (\<^verbatim>\<open>None\<close>), and an empty grid is falsy too.
\<close>

definition read_grid :: "int list list option \<Rightarrow> nat \<Rightarrow> nat \<Rightarrow> error + int" where
  "read_grid grid x y =
    (case grid of
       None \<Rightarrow> Inr 0
     | Some g \<Rightarrow>
         if g = [] then Inr 0
         else if x < length g \<and> y < length (g ! x) then Inr (g ! x ! y)
         else Inl IndexError)"

text \<open>Lines 194 to 248: the two loops over one layer, columns outside and rows inside.\<close>

definition write_layer ::
  "int \<Rightarrow> int \<Rightarrow> TilesetInfo list \<Rightarrow> TileDefinition list \<Rightarrow> string \<Rightarrow> layer_type \<Rightarrow>
   int list list option \<Rightarrow> error + byte list" where
  "write_layer map_width map_height tilesets defs layer_name layer_ty grid =
    run_all (map (\<lambda>x. run_all (map (\<lambda>y.
      (case read_grid grid x y of
         Inl e \<Rightarrow> Inl e
       | Inr raw_gid \<Rightarrow> write_cell tilesets defs layer_name layer_ty raw_gid))
      [0..<nat map_height])) [0..<nat map_width])"

text \<open>
  Lines 165 to 169: the grid of a layer, filled from the flat array of its cell values.
  \<open>i\<close> is the index \<^verbatim>\<open>enumerate\<close> counts. When the guard \<^verbatim>\<open>x < map_width\<close> holds,
  \<open>x\<close> and \<open>y\<close> are not negative.
\<close>

fun fill_grid :: "int \<Rightarrow> int \<Rightarrow> int \<Rightarrow> int list \<Rightarrow> int list list \<Rightarrow> error + int list list" where
  "fill_grid map_width map_height i [] grid = Inr grid"
| "fill_grid map_width map_height i (raw_gid # gids) grid =
    (if map_width = 0 then Inl ZeroDivisionError
     else
       (let x = i mod map_width; y = i div map_width
        in fill_grid map_width map_height (i + 1) gids
             (if x < map_width \<and> y < map_height
              then grid[nat x := (grid ! nat x)[nat y := raw_gid]]
              else grid)))"

definition build_grid :: "int \<Rightarrow> int \<Rightarrow> int list \<Rightarrow> error + int list list" where
  "build_grid map_width map_height gids =
    fill_grid map_width map_height 0 gids
      (replicate (nat map_width) (replicate (nat map_height) 0))"

text \<open>
  Lines 159 to 170: the dictionary \<^verbatim>\<open>tmx_layers\<close>, from the layers of the map in document
  order (name and flat array); a later layer of the same name replaces an earlier one.
\<close>

fun parse_layers ::
  "int \<Rightarrow> int \<Rightarrow> (string \<times> int list) list \<Rightarrow> (string \<rightharpoonup> int list list) \<Rightarrow>
   error + (string \<rightharpoonup> int list list)" where
  "parse_layers map_width map_height [] tmx_layers = Inr tmx_layers"
| "parse_layers map_width map_height ((name, gids) # layers) tmx_layers =
    (case build_grid map_width map_height gids of
       Inl e \<Rightarrow> Inl e
     | Inr grid \<Rightarrow> parse_layers map_width map_height layers (tmx_layers(name \<mapsto> grid)))"

text \<open>
  \<^verbatim>\<open>convert_tmx_to_bin\<close>, from the parsed map: its \<open>width\<close> and \<open>height\<close> attributes, its
  tilesets in document order, its layers in document order, and the tile definitions of
  every layer (\<^verbatim>\<open>layer_definitions\<close>, read from the resource files). Line 157 sorts the
  tilesets by descending \<open>firstgid\<close>, stably. The result is the content of the binary
  file, or the exception that aborted the conversion.
\<close>

definition convert_tmx_to_bin ::
  "int \<Rightarrow> int \<Rightarrow> TilesetInfo list \<Rightarrow> (string \<times> int list) list \<Rightarrow>
   (string \<rightharpoonup> TileDefinition list) \<Rightarrow> error + byte list" where
  "convert_tmx_to_bin map_width map_height tilesets_doc layers layer_definitions =
    (let tilesets = sort_key (\<lambda>ts. - firstgid ts) tilesets_doc in
     case parse_layers map_width map_height layers Map.empty of
       Inl e \<Rightarrow> Inl e
     | Inr tmx_layers \<Rightarrow>
         (case pack_B map_width of
            Inl e \<Rightarrow> Inl e
          | Inr bw \<Rightarrow>
              (case pack_B map_height of
                 Inl e \<Rightarrow> Inl e
               | Inr bh \<Rightarrow>
                   (case run_all (map (\<lambda>layer_name.
                            write_layer map_width map_height tilesets
                              (case layer_definitions layer_name of None \<Rightarrow> [] | Some ds \<Rightarrow> ds)
                              layer_name (LAYER_TYPES_get layer_name) (tmx_layers layer_name))
                          BINARY_WRITE_ORDER) of
                      Inl e \<Rightarrow> Inl e
                    | Inr body \<Rightarrow> Inr ([bw, bh] @ body @ [0])))))"

text \<open>
  The bytes one cell takes in the binary stream (lines 243 to 248, and lines 349 to 363 of
  the forward codec): the tile index and the auxiliary bytes of the layer's type.
\<close>

definition bytes_per_cell :: "layer_type \<Rightarrow> nat" where
  "bytes_per_cell layer_ty =
    (case layer_ty of TYPE_AUTOTILE \<Rightarrow> 3 | TYPE_FLIP \<Rightarrow> 2 | TYPE_SIMPLE \<Rightarrow> 1)"

subsection \<open>The parser of tile definitions\<close>

text \<open>
  \<^verbatim>\<open>parse_tile_definitions_from_string\<close>, lines 71 to 86. The regular-expression searches
  over the resource text are taken as given: \<open>names\<close> is the result of
  \<^verbatim>\<open>re.findall(r'^(\d+)/name', ...)\<close>, the digit strings in the order of the text;
  \<open>tex\<close>, \<open>reg\<close> and \<open>strd\<close> answer the searches for the texture, region and autotile
  size of a tile id. Line 73 puts the names in a \<^verbatim>\<open>set\<close> and line 74 iterates over it:
  \<open>iter\<close> is the order in which the interpreter enumerates that set. The elements are
  strings, whose hashes CPython salts per process, so the input does not fix \<open>iter\<close>: all
  that holds of it is \<open>set_iteration\<close>.
\<close>

definition set_iteration :: "(string list \<Rightarrow> string list) \<Rightarrow> string list \<Rightarrow> bool" where
  "set_iteration iter names = (distinct (iter names) \<and> set (iter names) = set names)"

text \<open>\<^verbatim>\<open>int(tid)\<close> of a string of decimal digits.\<close>

definition int_of_digits :: "string \<Rightarrow> int" where
  "int_of_digits s = foldl (\<lambda>n c. 10 * n + (int (of_char c) - 48)) 0 s"

fun parse_tids ::
  "string list \<Rightarrow> (int \<Rightarrow> int option) \<Rightarrow> (int \<Rightarrow> (rat \<times> rat \<times> rat \<times> rat) option) \<Rightarrow>
   (int \<Rightarrow> (rat \<times> rat) option) \<Rightarrow> (int \<rightharpoonup> string) \<Rightarrow> TileDefinition list" where
  "parse_tids [] tex reg strd ext_res_map = []"
| "parse_tids (tid_str # ids) tex reg strd ext_res_map =
    (let tid = int_of_digits tid_str in
     case tex tid of
       None \<Rightarrow> parse_tids ids tex reg strd ext_res_map
     | Some res_id \<Rightarrow>
         (case ext_res_map res_id of
            None \<Rightarrow> parse_tids ids tex reg strd ext_res_map
          | Some tex_path \<Rightarrow>
              \<lparr>godot_id = tid, texture_path = tex_path,
               region = (case reg tid of
                           None \<Rightarrow> (0, 0, of_int TILE_SIZE, of_int TILE_SIZE)
                         | Some r \<Rightarrow> r),
               stride = (case strd tid of
                           None \<Rightarrow> (of_int TILE_SIZE, of_int TILE_SIZE)
                         | Some v \<Rightarrow> v)\<rparr>
              # parse_tids ids tex reg strd ext_res_map))"

definition parse_tile_definitions_from_string ::
  "(string list \<Rightarrow> string list) \<Rightarrow> string list \<Rightarrow> (int \<Rightarrow> int option) \<Rightarrow>
   (int \<Rightarrow> (rat \<times> rat \<times> rat \<times> rat) option) \<Rightarrow> (int \<Rightarrow> (rat \<times> rat) option) \<Rightarrow>
   (int \<rightharpoonup> string) \<Rightarrow> TileDefinition list" where
  "parse_tile_definitions_from_string iter names tex reg strd ext_res_map =
    parse_tids (iter names) tex reg strd ext_res_map"

section \<open>The forward codec: \<^verbatim>\<open>map/bin_to_tiled.py\<close>\<close>

subsection \<open>The atlas registry\<close>

text \<open>
  Class \<^verbatim>\<open>ImageTileset\<close>. Its field \<^verbatim>\<open>firstgid\<close> is \<open>first_gid\<close> here, since
  \<open>TilesetInfo\<close> has a field of that name, and its fields \<^verbatim>\<open>width\<close> and \<^verbatim>\<open>height\<close>
  are \<open>pixel_width\<close> and \<open>pixel_height\<close>, since the level has a width and a height too;
  \<^verbatim>\<open>tsx_name\<close> is a file name that no computation below reads.
\<close>

record ImageTileset =
  rel_path :: string
  pixel_width :: int
  pixel_height :: int
  first_gid :: int
  cols :: int
  rows :: int

definition new_ImageTileset :: "string \<Rightarrow> ImageTileset" where
  "new_ImageTileset p =
    \<lparr>rel_path = p, pixel_width = 0, pixel_height = 0, first_gid = 0, cols = 0, rows = 0\<rparr>"

definition get_grid_dim :: "int \<Rightarrow> int" where
  "get_grid_dim pixels = (if pixels \<le> 0 then 0 else (pixels + TILE_SIZE - 1) div TILE_SIZE)"

text \<open>
  What the file system holds at an image path: nothing, a file whose PNG header cannot be
  read (\<^verbatim>\<open>get_image_dimensions\<close> returns \<^verbatim>\<open>None\<close>), or a PNG of some width and height.
\<close>

datatype image_file = Missing | Unreadable | Png int int

text \<open>\<^verbatim>\<open>create_tsx\<close>, lines 224 to 239: its effect on the \<^verbatim>\<open>ImageTileset\<close>.\<close>

definition create_tsx :: "(string \<Rightarrow> image_file) \<Rightarrow> ImageTileset \<Rightarrow> ImageTileset" where
  "create_tsx fs image_ts =
    (case fs (rel_path image_ts) of
       Missing \<Rightarrow> image_ts
     | Unreadable \<Rightarrow>
         image_ts\<lparr>pixel_width := 128, pixel_height := 128, cols := get_grid_dim 128, rows := get_grid_dim 128\<rparr>
     | Png w h \<Rightarrow>
         image_ts\<lparr>pixel_width := w, pixel_height := h, cols := get_grid_dim w, rows := get_grid_dim h\<rparr>)"

definition spawn_icon_path :: string where
  "spawn_icon_path = ''Tilemaps/newsandstone.png''"

text \<open>
  The layers of \<^verbatim>\<open>LAYER_CONFIG\<close> that name a resource file, in the order of the table
  (step 1c, lines 292 to 302).
\<close>

definition LAYER_CONFIG_files :: "string list" where
  "LAYER_CONFIG_files =
    [''constructbackground'', ''constructbackground/backgroundfeatures'', ''constructmap'',
     ''constructmapedges'', ''Map'', ''Mapedges'', ''paths'', ''features'', ''roofmap'',
     ''foliage'', ''shards'', ''watermap'', ''watermaptops'', ''cummap'',
     ''destructiblefeatures'']"

text \<open>
  \<^verbatim>\<open>if p not in unique_images: unique_images[p] = ImageTileset(p)\<close>: the keys of the
  dictionary, in insertion order.
\<close>

definition register_image :: "string list \<Rightarrow> string \<Rightarrow> string list" where
  "register_image keys p = (if p \<in> set keys then keys else keys @ [p])"

text \<open>
  Step 1, lines 273 to 302. The tile definitions of a layer are the dictionary the parser
  returns, as the list of its items.
\<close>

definition unique_image_paths :: "(string \<Rightarrow> (int \<times> TileDefinitionM) list) \<Rightarrow> string list" where
  "unique_image_paths layer_tile_definitions =
    foldl register_image []
      (map (\<lambda>kv. texture_path (snd kv)) (layer_tile_definitions ''Mapbackground'')
       @ [spawn_icon_path]
       @ concat (map (\<lambda>layer. map (\<lambda>kv. texture_path (snd kv)) (layer_tile_definitions layer))
                   LAYER_CONFIG_files))"

text \<open>
  Step 2, lines 306 to 317: the loop over the sorted paths. Each \<^verbatim>\<open>ImageTileset\<close> was
  created with zeros at registration and is completed here; the result lists them in the
  order of the loop.
\<close>

fun assign_gids :: "(string \<Rightarrow> image_file) \<Rightarrow> string list \<Rightarrow> int \<Rightarrow> ImageTileset list" where
  "assign_gids fs [] current_firstgid = []"
| "assign_gids fs (path # paths) current_firstgid =
    (let img_ts = create_tsx fs ((new_ImageTileset path)\<lparr>first_gid := current_firstgid\<rparr>)
     in img_ts # assign_gids fs paths (current_firstgid + cols img_ts * rows img_ts))"

definition atlas_registry :: "(string \<Rightarrow> image_file) \<Rightarrow> string list \<Rightarrow> ImageTileset list" where
  "atlas_registry fs keys = assign_gids fs (sort keys) 1"

text \<open>\<^verbatim>\<open>unique_images.get(p)\<close> after step 2.\<close>

definition unique_images_get :: "ImageTileset list \<Rightarrow> string \<rightharpoonup> ImageTileset" where
  "unique_images_get registry p = find (\<lambda>img_ts. rel_path img_ts = p) registry"

subsection \<open>Reading the binary level\<close>

text \<open>
  The cursor \<^verbatim>\<open>ptr\<close> of \<^verbatim>\<open>get8\<close>, and the number of lines \<^verbatim>\<open>OVERFLOW PTR !!\<close> printed
  so far: the console is the only place where the script reports a read past the end.
\<close>

record reader =
  ptr :: nat
  overflows :: nat

definition get8 :: "byte list \<Rightarrow> reader \<Rightarrow> int \<times> reader" where
  "get8 bin_data s =
    (if length bin_data \<le> ptr s then (0, s\<lparr>overflows := overflows s + 1\<rparr>)
     else (uint (bin_data ! ptr s), s\<lparr>ptr := ptr s + 1\<rparr>))"

text \<open>
  Lines 352 and 365 to 394: the GID of a decoded cell. The regions and strides are finite
  numbers here. On a float that is infinite or not a number, \<^verbatim>\<open>round\<close> of lines 388 and
  389 raises and aborts the conversion; this model has no such value, and nothing below
  says that \<^verbatim>\<open>convert\<close> completes.
\<close>

definition tile_gid ::
  "(string \<rightharpoonup> ImageTileset) \<Rightarrow> (int \<rightharpoonup> TileDefinitionM) \<Rightarrow> string \<Rightarrow>
   int \<Rightarrow> int \<Rightarrow> int \<Rightarrow> bool \<Rightarrow> int" where
  "tile_gid unique_images tile_defs layer_name tile_id auto_x auto_y flip =
    (if tile_id \<ge> 0 then
       if layer_name = ''spawnmarker'' then
         (case unique_images spawn_icon_path of
            None \<Rightarrow> 0
          | Some img_ts \<Rightarrow>
              if tile_id < cols img_ts * rows img_ts then first_gid img_ts + tile_id
              else first_gid img_ts)
       else
         (case tile_defs tile_id of
            None \<Rightarrow> 0
          | Some t_def \<Rightarrow>
              (case unique_images (texture_path t_def) of
                 None \<Rightarrow> 0
               | Some img_ts \<Rightarrow>
                   (case region t_def of (rx, ry, rw, rh) \<Rightarrow>
                     (case stride t_def of (sw, sh) \<Rightarrow>
                       (let pixel_x = (if tile_mode t_def > 0 then rx + of_int auto_x * sw else rx);
                            pixel_y = (if tile_mode t_def > 0 then ry + of_int auto_y * sh else ry);
                            grid_x = py_round (pixel_x / of_int TILE_SIZE);
                            grid_y = py_round (pixel_y / of_int TILE_SIZE)
                        in if grid_x < cols img_ts \<and> grid_y < rows img_ts then
                             (let final_gid = first_gid img_ts + (grid_x + grid_y * cols img_ts)
                              in if flip then final_gid OR FLIPPED_HORIZONTALLY_FLAG else final_gid)
                           else 0)))))
     else 0)"

text \<open>Lines 349 to 396: one cell, its bytes read from the stream.\<close>

definition read_cell ::
  "(string \<rightharpoonup> ImageTileset) \<Rightarrow> (int \<rightharpoonup> TileDefinitionM) \<Rightarrow> byte list \<Rightarrow> string \<Rightarrow>
   layer_type \<Rightarrow> reader \<Rightarrow> int \<times> reader" where
  "read_cell unique_images tile_defs bin_data layer_name parse_type s0 =
    (case get8 bin_data s0 of (val, s1) \<Rightarrow>
      (case parse_type of
         TYPE_AUTOTILE \<Rightarrow>
           (case get8 bin_data s1 of (auto_x, s2) \<Rightarrow>
             (case get8 bin_data s2 of (auto_y, s3) \<Rightarrow>
               (tile_gid unique_images tile_defs layer_name (val - 1) auto_x auto_y False, s3)))
       | TYPE_FLIP \<Rightarrow>
           (case get8 bin_data s1 of (f, s2) \<Rightarrow>
             (tile_gid unique_images tile_defs layer_name (val - 1) 0 0 (f = 1), s2))
       | TYPE_SIMPLE \<Rightarrow>
           (tile_gid unique_images tile_defs layer_name (val - 1) 0 0 False, s1)))"

text \<open>Lines 346 to 397: the inner loop over the rows of a column, and the outer one.\<close>

fun read_column ::
  "(string \<rightharpoonup> ImageTileset) \<Rightarrow> (int \<rightharpoonup> TileDefinitionM) \<Rightarrow> byte list \<Rightarrow> string \<Rightarrow>
   layer_type \<Rightarrow> nat \<Rightarrow> reader \<Rightarrow> int list \<times> reader" where
  "read_column ui tile_defs bin_data layer_name parse_type 0 s = ([], s)"
| "read_column ui tile_defs bin_data layer_name parse_type (Suc n) s =
    (case read_cell ui tile_defs bin_data layer_name parse_type s of (g, s') \<Rightarrow>
      (case read_column ui tile_defs bin_data layer_name parse_type n s' of (col, s'') \<Rightarrow>
        (g # col, s'')))"

fun read_columns ::
  "(string \<rightharpoonup> ImageTileset) \<Rightarrow> (int \<rightharpoonup> TileDefinitionM) \<Rightarrow> byte list \<Rightarrow> string \<Rightarrow>
   layer_type \<Rightarrow> nat \<Rightarrow> nat \<Rightarrow> reader \<Rightarrow> int list list \<times> reader" where
  "read_columns ui tile_defs bin_data layer_name parse_type 0 height s = ([], s)"
| "read_columns ui tile_defs bin_data layer_name parse_type (Suc n) height s =
    (case read_column ui tile_defs bin_data layer_name parse_type height s of (col, s') \<Rightarrow>
      (case read_columns ui tile_defs bin_data layer_name parse_type n height s' of (cs, s'') \<Rightarrow>
        (col # cs, s'')))"

text \<open>
  Lines 399 to 403: the rows of the interchange layer; their concatenation is the flat
  array of the layer's data element.
\<close>

definition tiled_rows :: "int list list \<Rightarrow> nat \<Rightarrow> nat \<Rightarrow> int list list" where
  "tiled_rows layer_gids width height =
    map (\<lambda>y. map (\<lambda>x. layer_gids ! x ! y) [0..<width]) [0..<height]"

definition read_layer ::
  "(string \<rightharpoonup> ImageTileset) \<Rightarrow> (int \<rightharpoonup> TileDefinitionM) \<Rightarrow> byte list \<Rightarrow> string \<Rightarrow>
   nat \<Rightarrow> nat \<Rightarrow> reader \<Rightarrow> int list \<times> reader" where
  "read_layer ui tile_defs bin_data layer_name width height s =
    (case read_columns ui tile_defs bin_data layer_name (LAYER_TYPES_get layer_name) width height s of
       (layer_gids, s') \<Rightarrow> (concat (tiled_rows layer_gids width height), s'))"

text \<open>Lines 340 to 403: the loop over \<^verbatim>\<open>BINARY_READ_ORDER\<close>.\<close>

fun read_layers ::
  "(string \<rightharpoonup> ImageTileset) \<Rightarrow> (string \<Rightarrow> (int \<times> TileDefinitionM) list) \<Rightarrow> byte list \<Rightarrow>
   nat \<Rightarrow> nat \<Rightarrow> string list \<Rightarrow> reader \<Rightarrow> (string \<times> int list) list \<times> reader" where
  "read_layers ui layer_tile_definitions bin_data width height [] s = ([], s)"
| "read_layers ui layer_tile_definitions bin_data width height (layer_name # names) s =
    (case read_layer ui (map_of (layer_tile_definitions layer_name)) bin_data layer_name
            width height s of (flat, s') \<Rightarrow>
      (case read_layers ui layer_tile_definitions bin_data width height names s' of
         (parsed_layers, s'') \<Rightarrow> ((layer_name, flat) # parsed_layers, s'')))"

text \<open>
  \<^verbatim>\<open>convert\<close>, steps 1 to 3, from the parsed tile definitions, the image files and the
  bytes of the level: the width, the height, the atlas registry, the flat array of every
  layer in reading order, and the final state of the reader. Step 4 writes these to the
  map file. \<^verbatim>\<open>layer_tile_definitions.get(layer_name, {})\<close> is the given dictionary; the
  layer \<^verbatim>\<open>spawnmarker\<close> has none and never looks one up.
\<close>

record converted =
  out_width :: nat
  out_height :: nat
  out_registry :: "ImageTileset list"
  out_layers :: "(string \<times> int list) list"
  out_reader :: reader

definition convert ::
  "(string \<Rightarrow> image_file) \<Rightarrow> (string \<Rightarrow> (int \<times> TileDefinitionM) list) \<Rightarrow> byte list \<Rightarrow> converted" where
  "convert fs layer_tile_definitions bin_data =
    (let registry = atlas_registry fs (unique_image_paths layer_tile_definitions) in
     case get8 bin_data \<lparr>ptr = 0, overflows = 0\<rparr> of (w, s1) \<Rightarrow>
      (case get8 bin_data s1 of (h, s2) \<Rightarrow>
        (case read_layers (unique_images_get registry) layer_tile_definitions bin_data
                (nat w) (nat h) BINARY_READ_ORDER s2 of (parsed_layers, s3) \<Rightarrow>
          \<lparr>out_width = nat w, out_height = nat h, out_registry = registry,
           out_layers = parsed_layers, out_reader = s3\<rparr>)))"

text \<open>
  The state of the reader after \<open>n\<close> more calls of \<^verbatim>\<open>get8\<close>, in closed form: the cursor
  stops at the end of the data and every call past it prints one more line.
\<close>

definition after_reads :: "byte list \<Rightarrow> nat \<Rightarrow> reader \<Rightarrow> reader" where
  "after_reads bin_data n s =
    \<lparr>ptr = min (ptr s + n) (length bin_data),
     overflows = overflows s + (ptr s + n - max (ptr s) (length bin_data))\<rparr>"

text \<open>
  Step 4, lines 405 to 443, writes the map file from the width, the height, the tilesets
  of the registry and the flat arrays of the layers. Nothing else of the conversion
  reaches the caller: the state of the reader is not written, what \<^verbatim>\<open>get8\<close> prints goes
  to the console, and \<^verbatim>\<open>convert\<close> returns \<^verbatim>\<open>None\<close>.
\<close>

definition map_written ::
  "converted \<Rightarrow> nat \<times> nat \<times> ImageTileset list \<times> (string \<times> int list) list" where
  "map_written c = (out_width c, out_height c, out_registry c, out_layers c)"

text \<open>
  Two readers at corresponding positions, the first on some data and the second on the
  same data followed by further bytes: before the end of the data they are at the same
  byte, and once the first is at the end the second is at or past that place.
\<close>

definition same_position :: "byte list \<Rightarrow> reader \<Rightarrow> reader \<Rightarrow> bool" where
  "same_position bin_data s s' =
    (if ptr s < length bin_data then ptr s' = ptr s else length bin_data \<le> ptr s')"

section \<open>Properties of the reverse codec\<close>

subsection \<open>The empty cell\<close>

lemma resolve_gid_zero: "resolve_gid tilesets defs layer_name 0 = Inr (0, 0, 0)"
  by (simp add: resolve_gid_def)

lemma masked_gid_zero: "masked_gid 0 = 0"
  by (simp add: masked_gid_def)

lemma flipped_h_zero: "\<not> flipped_h 0"
  by (simp add: flipped_h_def)

text \<open>
  Claim C6: in every layer and for every encoding type, a cell whose interchange value is
  0 is written as the tile index byte 0 followed by zero auxiliary bytes: two for
  \<open>TYPE_AUTOTILE\<close>, one for \<open>TYPE_FLIP\<close>, none for \<open>TYPE_SIMPLE\<close>.
\<close>

theorem gid_zero_decodes_to_zero_bytes:
  "write_cell tilesets defs layer_name layer_ty 0 =
     Inr (case layer_ty of
            TYPE_AUTOTILE \<Rightarrow> [0, 0, 0]
          | TYPE_FLIP \<Rightarrow> [0, 0]
          | TYPE_SIMPLE \<Rightarrow> [0])"
  by (simp add: write_cell_def masked_gid_zero flipped_h_zero resolve_gid_zero emit_cell_def
      pack_B_def split: layer_type.splits)

text \<open>
  More generally, a cell whose masked GID is 0 is written with tile index 0 and zero
  autotile bytes; its flip byte is the flip flag of the raw value, so the raw value
  \<open>0x80000000\<close> (the flag with GID 0) is written as 0, 1 on a \<open>TYPE_FLIP\<close> layer.
\<close>

lemma write_cell_masked_zero:
  "masked_gid raw_gid = 0 \<Longrightarrow>
   write_cell tilesets defs layer_name layer_ty raw_gid =
     Inr (case layer_ty of
            TYPE_AUTOTILE \<Rightarrow> [0, 0, 0]
          | TYPE_FLIP \<Rightarrow> [0, if flipped_h raw_gid then 1 else 0]
          | TYPE_SIMPLE \<Rightarrow> [0])"
  by (simp add: write_cell_def resolve_gid_zero emit_cell_def pack_B_def split: layer_type.splits)

lemma flip_flag_alone_on_flip_layer:
  "write_cell tilesets defs layer_name TYPE_FLIP 0x80000000 = Inr [0, 1]"
proof -
  have "masked_gid 0x80000000 = 0" and "flipped_h 0x80000000"
    by (simp_all add: masked_gid_def GID_MASK_def flipped_h_def FLIPPED_HORIZONTALLY_FLAG_def)
  then show ?thesis
    using write_cell_masked_zero [of "0x80000000" tilesets defs layer_name TYPE_FLIP] by simp
qed

subsection \<open>The flip flag\<close>

lemma and_mask_xor_exp:
  fixes g :: int
  assumes "m \<le> n"
  shows "(g XOR 2 ^ n) AND mask m = g AND mask m"
proof (rule bit_eqI)
  fix k
  show "bit ((g XOR 2 ^ n) AND mask m) k = bit (g AND mask m) k"
    using assms by (auto simp add: bit_and_iff bit_xor_iff bit_mask_iff bit_exp_iff)
qed

lemma and_exp_xor_exp:
  fixes g :: int
  shows "((g XOR 2 ^ n) AND 2 ^ n \<noteq> 0) = (g AND 2 ^ n = 0)"
  by (simp add: and_exp_eq_0_iff_not_bit bit_xor_iff bit_exp_iff)

lemma masked_gid_toggle: "masked_gid (g XOR FLIPPED_HORIZONTALLY_FLAG) = masked_gid g"
proof -
  have m: "GID_MASK = mask 29"
    by (simp add: GID_MASK_def mask_eq_exp_minus_1)
  have f: "FLIPPED_HORIZONTALLY_FLAG = 2 ^ 31"
    by (simp add: FLIPPED_HORIZONTALLY_FLAG_def)
  show ?thesis
    unfolding masked_gid_def m f by (rule and_mask_xor_exp) simp
qed

lemma flipped_h_toggle: "flipped_h (g XOR FLIPPED_HORIZONTALLY_FLAG) = (\<not> flipped_h g)"
proof -
  have f: "FLIPPED_HORIZONTALLY_FLAG = 2 ^ 31"
    by (simp add: FLIPPED_HORIZONTALLY_FLAG_def)
  show ?thesis
    unfolding flipped_h_def f using and_exp_xor_exp [of g 31] by blast
qed

lemma emit_cell_autotile_flag:
  "emit_cell TYPE_AUTOTILE a t = emit_cell TYPE_AUTOTILE b t"
  by (simp add: emit_cell_def split: prod.splits sum.splits)

lemma emit_cell_simple_flag:
  "emit_cell TYPE_SIMPLE a t = emit_cell TYPE_SIMPLE b t"
  by (simp add: emit_cell_def split: prod.splits sum.splits)

lemma emit_cell_flip_flag:
  "emit_cell TYPE_FLIP (\<not> a) t =
     (case emit_cell TYPE_FLIP a t of Inl e \<Rightarrow> Inl e | Inr bs \<Rightarrow> Inr [bs ! 0, 1 - bs ! 1])"
  by (cases a) (auto simp: emit_cell_def pack_B_def split: prod.splits)

text \<open>
  Claim C7: for every cell value \<open>g\<close>, decoding \<open>g\<close> and decoding \<open>g\<close> with bit 31 toggled
  use the same masked GID, hence find the same tileset and resolve to the same tile index
  and autotile offsets (or raise the same exception); the flip flag is negated. The bytes
  written on a \<open>TYPE_AUTOTILE\<close> or \<open>TYPE_SIMPLE\<close> layer are the same, and on a \<open>TYPE_FLIP\<close>
  layer they differ in the flip byte alone.
\<close>

theorem flip_flag_isolation:
  "masked_gid (g XOR FLIPPED_HORIZONTALLY_FLAG) = masked_gid g
   \<and> flipped_h (g XOR FLIPPED_HORIZONTALLY_FLAG) = (\<not> flipped_h g)
   \<and> find_tileset tilesets (masked_gid (g XOR FLIPPED_HORIZONTALLY_FLAG))
       = find_tileset tilesets (masked_gid g)
   \<and> resolve_gid tilesets defs layer_name (masked_gid (g XOR FLIPPED_HORIZONTALLY_FLAG))
       = resolve_gid tilesets defs layer_name (masked_gid g)
   \<and> write_cell tilesets defs layer_name TYPE_AUTOTILE (g XOR FLIPPED_HORIZONTALLY_FLAG)
       = write_cell tilesets defs layer_name TYPE_AUTOTILE g
   \<and> write_cell tilesets defs layer_name TYPE_SIMPLE (g XOR FLIPPED_HORIZONTALLY_FLAG)
       = write_cell tilesets defs layer_name TYPE_SIMPLE g
   \<and> write_cell tilesets defs layer_name TYPE_FLIP (g XOR FLIPPED_HORIZONTALLY_FLAG)
       = (case write_cell tilesets defs layer_name TYPE_FLIP g of
            Inl e \<Rightarrow> Inl e
          | Inr bs \<Rightarrow> Inr [bs ! 0, 1 - bs ! 1])"
proof -
  have auto_tile: "write_cell tilesets defs layer_name TYPE_AUTOTILE (g XOR FLIPPED_HORIZONTALLY_FLAG)
       = write_cell tilesets defs layer_name TYPE_AUTOTILE g"
    unfolding write_cell_def masked_gid_toggle
    by (simp add: emit_cell_autotile_flag [of "flipped_h (g XOR FLIPPED_HORIZONTALLY_FLAG)" _ "flipped_h g"]
        split: sum.splits)
  have simple: "write_cell tilesets defs layer_name TYPE_SIMPLE (g XOR FLIPPED_HORIZONTALLY_FLAG)
       = write_cell tilesets defs layer_name TYPE_SIMPLE g"
    unfolding write_cell_def masked_gid_toggle
    by (simp add: emit_cell_simple_flag [of "flipped_h (g XOR FLIPPED_HORIZONTALLY_FLAG)" _ "flipped_h g"]
        split: sum.splits)
  have flip: "write_cell tilesets defs layer_name TYPE_FLIP (g XOR FLIPPED_HORIZONTALLY_FLAG)
       = (case write_cell tilesets defs layer_name TYPE_FLIP g of
            Inl e \<Rightarrow> Inl e
          | Inr bs \<Rightarrow> Inr [bs ! 0, 1 - bs ! 1])"
    unfolding write_cell_def masked_gid_toggle flipped_h_toggle
    by (simp add: emit_cell_flip_flag split: sum.splits)
  show ?thesis
    using auto_tile simple flip by (simp add: masked_gid_toggle flipped_h_toggle)
qed

subsection \<open>The length of the output\<close>

lemma emit_cell_length:
  "emit_cell layer_ty flipped t = Inr bs \<Longrightarrow> length bs = bytes_per_cell layer_ty"
  by (auto simp: emit_cell_def bytes_per_cell_def split: prod.splits sum.splits layer_type.splits)

lemma write_cell_length:
  "write_cell tilesets defs layer_name layer_ty raw_gid = Inr bs \<Longrightarrow>
   length bs = bytes_per_cell layer_ty"
  by (auto simp: write_cell_def split: sum.splits dest: emit_cell_length)

lemma run_all_length:
  "run_all (map f xs) = Inr out \<Longrightarrow>
   (\<And>x bs. x \<in> set xs \<Longrightarrow> f x = Inr bs \<Longrightarrow> length bs = n x) \<Longrightarrow>
   length out = sum_list (map n xs)"
proof (induction xs arbitrary: out)
  case Nil
  then show ?case by simp
next
  case (Cons x xs)
  from Cons.prems(1) obtain bs cs where b: "f x = Inr bs" and c: "run_all (map f xs) = Inr cs"
    and o: "out = bs @ cs"
    by (auto split: sum.splits)
  have "length cs = sum_list (map n xs)"
    using Cons.IH [OF c] Cons.prems(2) by simp
  moreover have "length bs = n x"
    using Cons.prems(2) [of x bs] b by simp
  ultimately show ?case
    using o by simp
qed

lemma run_all_const:
  "run_all (map (\<lambda>_. Inr bs) xs) = Inr (concat (replicate (length xs) bs))"
  by (induction xs) auto

lemma write_layer_length:
  assumes "write_layer map_width map_height tilesets defs layer_name layer_ty grid = Inr out"
  shows "length out = nat map_width * nat map_height * bytes_per_cell layer_ty"
proof -
  let ?cell = "\<lambda>x y. (case read_grid grid x y of Inl e \<Rightarrow> Inl e
       | Inr raw_gid \<Rightarrow> write_cell tilesets defs layer_name layer_ty raw_gid)"
  let ?col = "\<lambda>x. run_all (map (?cell x) [0..<nat map_height])"
  have col: "length bs = nat map_height * bytes_per_cell layer_ty" if "?col x = Inr bs" for x bs
  proof -
    have "length bs = sum_list (map (\<lambda>_. bytes_per_cell layer_ty) [0..<nat map_height])"
      by (rule run_all_length [OF that]) (auto split: sum.splits dest: write_cell_length)
    then show ?thesis
      by (simp add: sum_list_triv)
  qed
  have "length out =
      sum_list (map (\<lambda>_. nat map_height * bytes_per_cell layer_ty) [0..<nat map_width])"
    by (rule run_all_length [where f = ?col]) (use assms col in \<open>auto simp: write_layer_def\<close>)
  then show ?thesis
    by (simp add: sum_list_triv)
qed

lemma write_layer_absent:
  "write_layer map_width map_height tilesets defs layer_name layer_ty None =
     Inr (replicate (nat map_width * nat map_height * bytes_per_cell layer_ty) 0)"
proof -
  have cell: "write_cell tilesets defs layer_name layer_ty 0 =
      Inr (replicate (bytes_per_cell layer_ty) 0)"
    by (simp add: write_cell_def masked_gid_zero flipped_h_zero resolve_gid_zero emit_cell_def
        pack_B_def bytes_per_cell_def numeral_eq_Suc split: layer_type.splits)
  have rep: "concat (replicate k (replicate m (0::byte))) = replicate (k * m) 0" for k m
    by (induction k) (simp_all add: replicate_add)
  show ?thesis
    by (simp add: write_layer_def read_grid_def cell run_all_const rep mult.commute
        mult.left_commute)
qed

lemma parse_layers_absent:
  "parse_layers map_width map_height layers m = Inr tmx_layers \<Longrightarrow>
   layer_name \<notin> fst ` set layers \<Longrightarrow> tmx_layers layer_name = m layer_name"
  by (induction layers arbitrary: m) (auto split: sum.splits)

lemma total_bytes_per_cell:
  "sum_list (map (\<lambda>layer_name. k * bytes_per_cell (LAYER_TYPES_get layer_name))
      BINARY_WRITE_ORDER) = 38 * k"
  by (simp add: BINARY_WRITE_ORDER_def LAYER_TYPES_get_def LAYER_TYPES_def bytes_per_cell_def)

lemma convert_length:
  assumes "convert_tmx_to_bin map_width map_height tilesets_doc layers layer_definitions = Inr out"
  shows "length out =
    2 + sum_list (map (\<lambda>layer_name. (nat map_width * nat map_height) *
           bytes_per_cell (LAYER_TYPES_get layer_name)) BINARY_WRITE_ORDER) + 1"
proof -
  let ?ts = "sort_key (\<lambda>ts. - firstgid ts) tilesets_doc"
  from assms obtain tmx_layers body where
    body: "run_all (map (\<lambda>layer_name.
              write_layer map_width map_height ?ts
                (case layer_definitions layer_name of None \<Rightarrow> [] | Some ds \<Rightarrow> ds)
                layer_name (LAYER_TYPES_get layer_name) (tmx_layers layer_name))
            BINARY_WRITE_ORDER) = Inr body"
    and out: "length out = 2 + length body + 1"
    by (auto simp: convert_tmx_to_bin_def Let_def split: sum.splits)
  have "length body = sum_list (map (\<lambda>layer_name. (nat map_width * nat map_height) *
           bytes_per_cell (LAYER_TYPES_get layer_name)) BINARY_WRITE_ORDER)"
    by (rule run_all_length [OF body]) (auto dest: write_layer_length)
  then show ?thesis
    using out by simp
qed

text \<open>
  Claim C9, as amended: a layer of the write order that the input map does not hold is
  written as \<open>width * height\<close> cells of zero bytes, each of the full size of the layer's
  encoding type; and whenever the conversion completes without an exception, the output
  has 2 bytes, then \<open>width * height * bytes_per_cell\<close> bytes for each of the 17 layers
  (\<open>38 * width * height\<close> in all), then 1 trailing byte, whichever layers the input holds.
\<close>

theorem output_length_when_conversion_completes:
  "(parse_layers map_width map_height layers Map.empty = Inr tmx_layers \<and>
      layer_name \<notin> fst ` set layers \<longrightarrow>
      write_layer map_width map_height tilesets defs layer_name layer_ty (tmx_layers layer_name)
        = Inr (replicate (nat map_width * nat map_height * bytes_per_cell layer_ty) 0))
   \<and> (convert_tmx_to_bin map_width map_height tilesets_doc layers layer_definitions = Inr out \<longrightarrow>
        length out =
          2 + sum_list (map (\<lambda>name. (nat map_width * nat map_height) *
                bytes_per_cell (LAYER_TYPES_get name)) BINARY_WRITE_ORDER) + 1)
   \<and> sum_list (map (\<lambda>name. (nat map_width * nat map_height) *
                bytes_per_cell (LAYER_TYPES_get name)) BINARY_WRITE_ORDER)
        = 38 * (nat map_width * nat map_height)
   \<and> length BINARY_WRITE_ORDER = 17"
proof -
  have "tmx_layers layer_name = None"
    if "parse_layers map_width map_height layers Map.empty = Inr tmx_layers"
      and "layer_name \<notin> fst ` set layers"
    using parse_layers_absent [OF that] by simp
  moreover have "length BINARY_WRITE_ORDER = 17"
    by (simp add: BINARY_WRITE_ORDER_def)
  ultimately show ?thesis
    using convert_length [of map_width map_height tilesets_doc layers layer_definitions out]
    by (simp add: write_layer_absent total_bytes_per_cell)
qed

text \<open>
  A map of one cell with no layer at all converts to 41 bytes, and a layer absent from it
  is written as zero bytes.
\<close>

theorem output_length_witness:
  "convert_tmx_to_bin 1 1 [] [] Map.empty = Inr ([1, 1] @ replicate 39 0)
   \<and> length ([1, 1] @ replicate 39 (0::byte)) = 2 + 38 * (nat 1 * nat 1) + 1
   \<and> write_layer 1 1 [] [] ''Map'' TYPE_AUTOTILE (Map.empty ''Map'') = Inr (replicate 3 0)"
proof -
  have ev: "convert_tmx_to_bin 1 1 [] [] Map.empty = Inr ([1, 1] @ replicate 39 0)"
    by code_simp
  have ps: "parse_layers 1 1 [] Map.empty = Inr Map.empty"
    by simp
  show ?thesis
    using ev ps
      output_length_when_conversion_completes [of 1 1 "[]" Map.empty "''Map''" "[]" "[]"
        TYPE_AUTOTILE "[]" Map.empty "[1, 1] @ replicate 39 0"]
    by (simp add: bytes_per_cell_def)
qed

text \<open>
  Claim C9 as stated fails: the output does not always have that length, and whether it
  has depends on the layers present. The map of one cell converts to 41 bytes without its
  \<open>spawnmarker\<close> layer; with that layer holding GID 300 the tile index 300 does not fit a
  byte and the conversion is aborted by \<^verbatim>\<open>struct.error\<close>.
\<close>

theorem output_length_spawnmarker_abort:
  "convert_tmx_to_bin 1 1 [\<lparr>firstgid = 1, image_path = None, columns = 4\<rparr>] [] Map.empty
     = Inr ([1, 1] @ replicate 39 0)
   \<and> convert_tmx_to_bin 1 1 [\<lparr>firstgid = 1, image_path = None, columns = 4\<rparr>]
       [(''spawnmarker'', [300])] Map.empty = Inl StructError"
  by code_simp

subsection \<open>Dimensions that do not fit a byte\<close>

text \<open>
  Claim C10: when the declared width or height of the map exceeds 255, the pack of that
  dimension into one byte fails and the conversion ends in an exception; no file with the
  dimension reduced modulo 256 is produced.
\<close>

theorem oversized_dimension_raises:
  assumes "255 < map_width \<or> 255 < map_height"
  shows "(\<exists>e. convert_tmx_to_bin map_width map_height tilesets_doc layers layer_definitions = Inl e)
    \<and> (pack_B map_width = Inl StructError \<or> pack_B map_height = Inl StructError)"
  using assms by (auto simp: convert_tmx_to_bin_def pack_B_def Let_def split: sum.splits)

theorem oversized_dimension_witness:
  "(255::int) < 256 \<and> convert_tmx_to_bin 256 1 [] [] Map.empty = Inl StructError
   \<and> pack_B 256 = Inl StructError"
proof -
  have h: "(255::int) < 256 \<or> (255::int) < 1"
    by simp
  have p: "pack_B 1 = Inr 1" "parse_layers 256 1 [] Map.empty = Inr Map.empty"
    by (simp_all add: pack_B_def)
  show ?thesis
    using oversized_dimension_raises [OF h, of "[]" "[]" Map.empty] p
    by (auto simp: convert_tmx_to_bin_def pack_B_def)
qed

subsection \<open>The order of the cells in the grid\<close>

lemma fill_grid_spec:
  fixes w h :: nat
  assumes "0 < w" "length grid = w" "\<And>x. x < w \<Longrightarrow> length (grid ! x) = h"
  shows "\<exists>grid'. fill_grid (int w) (int h) (int i) gids grid = Inr grid'
    \<and> length grid' = w \<and> (\<forall>x < w. length (grid' ! x) = h)
    \<and> (\<forall>x < w. \<forall>y < h. grid' ! x ! y =
          (if i \<le> y * w + x \<and> y * w + x < i + length gids then gids ! (y * w + x - i)
           else grid ! x ! y))"
  using assms
proof (induction gids arbitrary: i grid)
  case Nil
  then show ?case by simp
next
  case (Cons raw gids)
  let ?x0 = "i mod w" and ?y0 = "i div w"
  let ?grid1 = "if ?y0 < h then grid[?x0 := (grid ! ?x0)[?y0 := raw]] else grid"
  have x0: "?x0 < w" using Cons.prems(1) by simp
  have conv: "int i mod int w = int ?x0" "int i div int w = int ?y0"
    by (simp_all add: zmod_int zdiv_int)
  have step: "fill_grid (int w) (int h) (int i) (raw # gids) grid
      = fill_grid (int w) (int h) (int (Suc i)) gids ?grid1"
    using Cons.prems(1) x0 by (simp add: conv Let_def add.commute)
  have len1: "length ?grid1 = w" using Cons.prems(2) by simp
  have col1: "length (?grid1 ! x) = h" if "x < w" for x
    using that Cons.prems(2,3) by (simp add: nth_list_update)
  from Cons.IH [OF Cons.prems(1) len1 col1, of "Suc i"]
  obtain grid' where r: "fill_grid (int w) (int h) (int (Suc i)) gids ?grid1 = Inr grid'"
    and l: "length grid' = w" and c: "\<forall>x < w. length (grid' ! x) = h"
    and v: "\<forall>x < w. \<forall>y < h. grid' ! x ! y =
          (if Suc i \<le> y * w + x \<and> y * w + x < Suc i + length gids then gids ! (y * w + x - Suc i)
           else ?grid1 ! x ! y)"
    by blast
  have "grid' ! x ! y =
          (if i \<le> y * w + x \<and> y * w + x < i + length (raw # gids) then (raw # gids) ! (y * w + x - i)
           else grid ! x ! y)" if xw: "x < w" and yh: "y < h" for x y
  proof (cases "y * w + x = i")
    case True
    then have e: "?x0 = x" "?y0 = y" using xw by auto
    have "?grid1 ! x ! y = raw"
      using xw yh Cons.prems(2,3) by (simp add: e)
    then show ?thesis using v xw yh True by simp
  next
    case False
    have ne: "\<not> (?x0 = x \<and> ?y0 = y)"
      using False by (metis div_mult_mod_eq)
    have same: "?grid1 ! x ! y = grid ! x ! y"
      using ne xw yh Cons.prems(2,3) x0 by (auto simp: nth_list_update)
    show ?thesis
    proof (cases "i < y * w + x")
      case True
      then have "(raw # gids) ! (y * w + x - i) = gids ! (y * w + x - Suc i)"
        by (simp add: nth_Cons')
      then show ?thesis using v xw yh True same by auto
    next
      case False
      with \<open>y * w + x \<noteq> i\<close> have "y * w + x < i" by simp
      then show ?thesis using v xw yh same by simp
    qed
  qed
  with r l c show ?case unfolding step by blast
qed

lemma build_grid_spec:
  fixes w h :: nat
  assumes "0 < w"
  shows "\<exists>grid. build_grid (int w) (int h) gids = Inr grid
    \<and> length grid = w \<and> (\<forall>x < w. length (grid ! x) = h)
    \<and> (\<forall>x < w. \<forall>y < h. grid ! x ! y =
          (if y * w + x < length gids then gids ! (y * w + x) else 0))"
proof -
  have "\<exists>grid'. fill_grid (int w) (int h) (int 0) gids (replicate w (replicate h 0)) = Inr grid'
    \<and> length grid' = w \<and> (\<forall>x < w. length (grid' ! x) = h)
    \<and> (\<forall>x < w. \<forall>y < h. grid' ! x ! y =
          (if 0 \<le> y * w + x \<and> y * w + x < 0 + length gids then gids ! (y * w + x - 0)
           else replicate w (replicate h 0) ! x ! y))"
    by (rule fill_grid_spec) (use assms in simp_all)
  then obtain grid' where a: "fill_grid (int w) (int h) 0 gids (replicate w (replicate h 0)) = Inr grid'"
    and b: "length grid' = w" and c: "\<forall>x < w. length (grid' ! x) = h"
    and d: "\<forall>x < w. \<forall>y < h. grid' ! x ! y =
          (if y * w + x < length gids then gids ! (y * w + x) else 0)"
    by auto
  show ?thesis
    unfolding build_grid_def using a b c d by auto
qed

lemma reverse_transposition:
  fixes w h :: nat
  assumes "build_grid (int w) (int h) gids = Inr grid" and "0 < w"
    and "i < length gids" and "i div w < h"
  shows "grid ! (i mod w) ! (i div w) = gids ! i"
proof -
  from build_grid_spec [OF assms(2), of h gids] assms(1)
  have v: "\<forall>x < w. \<forall>y < h. grid ! x ! y =
          (if y * w + x < length gids then gids ! (y * w + x) else 0)"
    by simp
  have "i mod w < w" using assms(2) by simp
  with v assms(3,4) show ?thesis
    by (simp add: div_mult_mod_eq)
qed

lemma write_layer_transposed:
  fixes w h :: nat
  assumes "build_grid (int w) (int h) gids = Inr grid" and "0 < w" 
  shows "write_layer (int w) (int h) tilesets defs layer_name layer_ty (Some grid) =
     run_all (map (\<lambda>x. run_all (map (\<lambda>y.
        write_cell tilesets defs layer_name layer_ty
          (if y * w + x < length gids then gids ! (y * w + x) else 0)) [0..<h])) [0..<w])"
proof -
  from build_grid_spec [OF assms(2), of h gids] assms(1)
  have l: "length grid = w" and c: "\<forall>x < w. length (grid ! x) = h"
    and v: "\<forall>x < w. \<forall>y < h. grid ! x ! y =
          (if y * w + x < length gids then gids ! (y * w + x) else 0)"
    by simp_all
  have ne: "grid \<noteq> []" using l assms(2) by auto
  have rg: "read_grid (Some grid) x y = Inr (if y * w + x < length gids then gids ! (y * w + x) else 0)"
    if "x < w" "y < h" for x y
    using that l c v ne by (simp add: read_grid_def)
  have inner: "map (\<lambda>y. case read_grid (Some grid) x y of Inl e \<Rightarrow> Inl e
        | Inr raw_gid \<Rightarrow> write_cell tilesets defs layer_name layer_ty raw_gid) [0..<h]
      = map (\<lambda>y. write_cell tilesets defs layer_name layer_ty
          (if y * w + x < length gids then gids ! (y * w + x) else 0)) [0..<h]"
    if "x < w" for x
    by (rule map_cong) (use that rg in auto)
  have "map (\<lambda>x. run_all (map (\<lambda>y. case read_grid (Some grid) x y of Inl e \<Rightarrow> Inl e
        | Inr raw_gid \<Rightarrow> write_cell tilesets defs layer_name layer_ty raw_gid) [0..<h])) [0..<w]
      = map (\<lambda>x. run_all (map (\<lambda>y. write_cell tilesets defs layer_name layer_ty
          (if y * w + x < length gids then gids ! (y * w + x) else 0)) [0..<h])) [0..<w]"
    by (rule map_cong [OF refl]) (simp add: inner)
  then show ?thesis
    unfolding write_layer_def nat_int by (rule arg_cong)
qed

section \<open>Properties of the forward codec\<close>

subsection \<open>The atlas registry\<close>

lemma get_grid_dim_nonneg: "0 \<le> get_grid_dim n"
  by (simp add: get_grid_dim_def TILE_SIZE_def pos_imp_zdiv_nonneg_iff)

lemma create_tsx_fields:
  "rel_path (create_tsx fs t) = rel_path t" "first_gid (create_tsx fs t) = first_gid t"
  by (simp_all add: create_tsx_def split: image_file.splits)

lemma create_tsx_nonneg:
  "0 \<le> cols t \<Longrightarrow> 0 \<le> rows t \<Longrightarrow> 0 \<le> cols (create_tsx fs t) \<and> 0 \<le> rows (create_tsx fs t)"
  by (simp add: create_tsx_def get_grid_dim_nonneg split: image_file.splits)

lemma assign_gids_paths: "map rel_path (assign_gids fs paths cur) = paths"
  by (induction paths arbitrary: cur) (simp_all add: Let_def create_tsx_fields new_ImageTileset_def)

lemma assign_gids_length: "length (assign_gids fs paths cur) = length paths"
  using assign_gids_paths [of fs paths cur] by (metis length_map)

lemma assign_gids_hd: "paths \<noteq> [] \<Longrightarrow> first_gid (hd (assign_gids fs paths cur)) = cur"
  by (cases paths) (simp_all add: Let_def create_tsx_fields)

lemma assign_gids_nonneg:
  "a \<in> set (assign_gids fs paths cur) \<Longrightarrow> 0 \<le> cols a \<and> 0 \<le> rows a"
proof (induction paths arbitrary: cur)
  case Nil
  then show ?case by simp
next
  case (Cons p paths)
  have "0 \<le> cols (create_tsx fs ((new_ImageTileset p)\<lparr>first_gid := cur\<rparr>))
      \<and> 0 \<le> rows (create_tsx fs ((new_ImageTileset p)\<lparr>first_gid := cur\<rparr>))"
    by (rule create_tsx_nonneg) (simp_all add: new_ImageTileset_def)
  with Cons show ?case by (auto simp: Let_def)
qed

lemma assign_gids_lower:
  "a \<in> set (assign_gids fs paths cur) \<Longrightarrow> cur \<le> first_gid a"
proof (induction paths arbitrary: cur)
  case Nil
  then show ?case by simp
next
  case (Cons p paths)
  let ?img = "create_tsx fs ((new_ImageTileset p)\<lparr>first_gid := cur\<rparr>)"
  have nn: "0 \<le> cols ?img * rows ?img"
    using create_tsx_nonneg [of "(new_ImageTileset p)\<lparr>first_gid := cur\<rparr>" fs]
    by (simp add: new_ImageTileset_def)
  from Cons.prems have "a = ?img \<or> a \<in> set (assign_gids fs paths (cur + cols ?img * rows ?img))"
    by (simp add: Let_def)
  then show ?case
  proof
    assume "a = ?img"
    then show ?thesis by (simp add: create_tsx_fields)
  next
    assume "a \<in> set (assign_gids fs paths (cur + cols ?img * rows ?img))"
    from Cons.IH [OF this] nn show ?thesis by simp
  qed
qed

lemma assign_gids_step:
  "Suc i < length paths \<Longrightarrow>
   first_gid (assign_gids fs paths cur ! Suc i) =
     first_gid (assign_gids fs paths cur ! i)
       + cols (assign_gids fs paths cur ! i) * rows (assign_gids fs paths cur ! i)"
proof (induction paths arbitrary: cur i)
  case Nil
  then show ?case by simp
next
  case (Cons p paths)
  let ?img = "create_tsx fs ((new_ImageTileset p)\<lparr>first_gid := cur\<rparr>)"
  let ?rest = "assign_gids fs paths (cur + cols ?img * rows ?img)"
  have unfold: "assign_gids fs (p # paths) cur = ?img # ?rest"
    by (simp add: Let_def)
  show ?case
  proof (cases i)
    case 0
    from Cons.prems 0 have ne: "paths \<noteq> []" by auto
    have "?rest \<noteq> []"
      using ne assign_gids_length [of fs paths "cur + cols ?img * rows ?img"] by auto
    then have "?rest ! 0 = hd ?rest"
      by (simp add: hd_conv_nth)
    then show ?thesis
      unfolding unfold 0 using assign_gids_hd [OF ne] by (simp add: create_tsx_fields)
  next
    case (Suc k)
    with Cons.prems have "Suc k < length paths" by simp
    from Cons.IH [OF this] show ?thesis
      unfolding unfold Suc by simp
  qed
qed

lemma assign_gids_ordered:
  "i < j \<Longrightarrow> j < length paths \<Longrightarrow>
   first_gid (assign_gids fs paths cur ! i)
     + cols (assign_gids fs paths cur ! i) * rows (assign_gids fs paths cur ! i)
   \<le> first_gid (assign_gids fs paths cur ! j)"
proof (induction paths arbitrary: cur i j)
  case Nil
  then show ?case by simp
next
  case (Cons p paths)
  let ?img = "create_tsx fs ((new_ImageTileset p)\<lparr>first_gid := cur\<rparr>)"
  let ?rest = "assign_gids fs paths (cur + cols ?img * rows ?img)"
  have unfold: "assign_gids fs (p # paths) cur = ?img # ?rest"
    by (simp add: Let_def)
  from Cons.prems obtain j' where j: "j = Suc j'" and j': "j' < length paths"
    by (cases j) auto
  show ?case
  proof (cases i)
    case 0
    have "?rest ! j' \<in> set ?rest"
      using j' by (simp add: assign_gids_length)
    from assign_gids_lower [OF this] show ?thesis
      unfolding unfold 0 j by (simp add: create_tsx_fields)
  next
    case (Suc i')
    with Cons.prems j have "i' < j'" by simp
    from Cons.IH [OF this j'] show ?thesis
      unfolding unfold Suc j by simp
  qed
qed

lemma register_image_distinct: "distinct keys \<Longrightarrow> distinct (register_image keys p)"
  by (simp add: register_image_def)

lemma register_image_set: "set (register_image keys p) = insert p (set keys)"
  by (auto simp: register_image_def)

lemma foldl_register_image:
  "distinct keys \<Longrightarrow> distinct (foldl register_image keys ps)
     \<and> set (foldl register_image keys ps) = set keys \<union> set ps"
  by (induction ps arbitrary: keys) (auto simp: register_image_distinct register_image_set)

lemma unique_image_paths_distinct: "distinct (unique_image_paths ltd)"
  unfolding unique_image_paths_def by (rule conjunct1 [OF foldl_register_image]) simp

lemma spawn_icon_registered: "spawn_icon_path \<in> set (unique_image_paths ltd)"
proof -
  define ps where "ps = map (\<lambda>kv. texture_path (snd kv)) (ltd ''Mapbackground'')
       @ [spawn_icon_path]
       @ concat (map (\<lambda>layer. map (\<lambda>kv. texture_path (snd kv)) (ltd layer))
                   LAYER_CONFIG_files)"
  have "set (foldl register_image [] ps) = set ps"
    using foldl_register_image [of "[]" ps] by simp
  moreover have "spawn_icon_path \<in> set ps"
    by (simp add: ps_def)
  ultimately show ?thesis
    unfolding unique_image_paths_def ps_def by blast
qed

lemma sort_set_unique:
  fixes xs ys :: "string list"
  assumes "distinct xs" "distinct ys" "set xs = set ys"
  shows "sort xs = sort ys"
  by (rule sorted_distinct_set_unique) (use assms in simp_all)

text \<open>
  Claim C5: the registry lists the atlas images in the lexicographic order of their paths
  (the order of \<open>char list\<close>, byte by byte), each once. The first \<open>firstgid\<close> is 1, each
  further one is the previous \<open>firstgid\<close> plus the previous \<open>cols * rows\<close>; so every
  \<open>firstgid\<close> is at least 1, the \<open>firstgid\<close>s ascend, and the ranges
  \<open>[firstgid, firstgid + cols * rows)\<close> of two different entries are disjoint. The
  registry is a function of the set of paths alone: the order in which the definitions
  supply them does not matter.
\<close>

theorem atlas_registry_ranges:
  fixes fs ltd
  defines "reg \<equiv> atlas_registry fs (unique_image_paths ltd)"
  shows "map rel_path reg = sort (unique_image_paths ltd)
    \<and> sorted (map rel_path reg) \<and> distinct (map rel_path reg)
    \<and> reg \<noteq> [] \<and> first_gid (hd reg) = 1
    \<and> (\<forall>a \<in> set reg. 1 \<le> first_gid a \<and> 0 \<le> cols a * rows a)
    \<and> (\<forall>i. Suc i < length reg \<longrightarrow>
          first_gid (reg ! Suc i) = first_gid (reg ! i) + cols (reg ! i) * rows (reg ! i))
    \<and> (\<forall>i j. i < j \<and> j < length reg \<longrightarrow>
          first_gid (reg ! i) + cols (reg ! i) * rows (reg ! i) \<le> first_gid (reg ! j))
    \<and> (\<forall>i j. i < length reg \<and> j < length reg \<and> i \<noteq> j \<longrightarrow>
          {first_gid (reg ! i) ..< first_gid (reg ! i) + cols (reg ! i) * rows (reg ! i)}
          \<inter> {first_gid (reg ! j) ..< first_gid (reg ! j) + cols (reg ! j) * rows (reg ! j)} = {})
    \<and> (set (unique_image_paths ltd) = set (unique_image_paths ltd') \<longrightarrow>
          atlas_registry fs (unique_image_paths ltd') = reg)"
proof -
  let ?keys = "unique_image_paths ltd"
  have paths: "map rel_path reg = sort ?keys"
    by (simp add: reg_def atlas_registry_def assign_gids_paths)
  have len: "length reg = length (sort ?keys)"
    by (simp add: reg_def atlas_registry_def assign_gids_length)
  have srt: "sorted (map rel_path reg)" and dst: "distinct (map rel_path reg)"
    by (simp_all add: paths unique_image_paths_distinct)
  have ne: "sort ?keys \<noteq> []"
    using spawn_icon_registered [of ltd] by (metis empty_iff empty_set set_sort)
  then have ne_reg: "reg \<noteq> []"
    using len by auto
  have hd1: "first_gid (hd reg) = 1"
    unfolding reg_def atlas_registry_def by (rule assign_gids_hd [OF ne])
  have lower: "\<forall>a \<in> set reg. 1 \<le> first_gid a \<and> 0 \<le> cols a * rows a"
    unfolding reg_def atlas_registry_def
    using assign_gids_lower assign_gids_nonneg by (metis zero_le_mult_iff)
  have step: "\<forall>i. Suc i < length reg \<longrightarrow>
          first_gid (reg ! Suc i) = first_gid (reg ! i) + cols (reg ! i) * rows (reg ! i)"
    using len unfolding reg_def atlas_registry_def by (simp add: assign_gids_step)
  have ordered: "first_gid (reg ! i) + cols (reg ! i) * rows (reg ! i) \<le> first_gid (reg ! j)"
    if "i < j" "j < length reg" for i j
    using that len unfolding reg_def atlas_registry_def by (simp add: assign_gids_ordered)
  have disjoint: "{first_gid (reg ! i) ..< first_gid (reg ! i) + cols (reg ! i) * rows (reg ! i)}
          \<inter> {first_gid (reg ! j) ..< first_gid (reg ! j) + cols (reg ! j) * rows (reg ! j)} = {}"
    if "i < length reg" "j < length reg" "i \<noteq> j" for i j
  proof (cases "i < j")
    case True
    from ordered [OF True that(2)] show ?thesis by auto
  next
    case False
    with that have "j < i" by simp
    from ordered [OF this that(1)] show ?thesis by auto
  qed
  have det: "atlas_registry fs (unique_image_paths ltd') = reg"
    if "set (unique_image_paths ltd) = set (unique_image_paths ltd')"
  proof -
    have "sort (unique_image_paths ltd') = sort ?keys"
      by (rule sort_set_unique) (simp_all add: unique_image_paths_distinct that)
    then show ?thesis
      by (simp add: reg_def atlas_registry_def)
  qed
  show ?thesis
    using paths srt dst ne_reg hd1 lower step ordered disjoint det by blast
qed

text \<open>
  Two images, 512 by 512 and 129 by 1 pixels: 16 tiles from GID 1 and 2 tiles from GID 17.
\<close>

theorem atlas_registry_ranges_witness:
  "map (\<lambda>a. (rel_path a, first_gid a, cols a * rows a))
     (atlas_registry (\<lambda>p. if p = ''Tilemaps/map.png'' then Png 512 512 else Png 129 1)
        (unique_image_paths (\<lambda>l. if l = ''Map'' then [(0, \<lparr>godot_id = 0,
            texture_path = ''Tilemaps/map.png'', region = (0, 0, 128, 128),
            stride = (128, 128), tile_mode = 0\<rparr>)] else [])))
   = [(''Tilemaps/map.png'', 1, 16), (''Tilemaps/newsandstone.png'', 17, 2)]
   \<and> {1 ..< 1 + (16::int)} \<inter> {17 ..< 17 + 2} = {}"
proof -
  let ?fs = "\<lambda>p. if p = ''Tilemaps/map.png'' then Png 512 512 else Png 129 1"
  let ?ltd = "\<lambda>l. if l = ''Map'' then [(0::int, \<lparr>godot_id = 0,
            texture_path = ''Tilemaps/map.png'', region = (0, 0, 128, 128),
            stride = (128, 128), tile_mode = 0\<rparr>)] else []"
  have ev: "map (\<lambda>a. (rel_path a, first_gid a, cols a * rows a))
     (atlas_registry ?fs (unique_image_paths ?ltd))
      = [(''Tilemaps/map.png'', 1, 16), (''Tilemaps/newsandstone.png'', 17, 2)]"
    by code_simp
  have len: "length (atlas_registry ?fs (unique_image_paths ?ltd)) = 2"
    using arg_cong [OF ev, of length] by simp
  have n0: "atlas_registry ?fs (unique_image_paths ?ltd) ! 0 = hd (atlas_registry ?fs (unique_image_paths ?ltd))"
    using len by (metis hd_conv_nth length_0_conv zero_neq_numeral)
  from atlas_registry_ranges [of ?fs ?ltd ?ltd] len
  have "{first_gid (atlas_registry ?fs (unique_image_paths ?ltd) ! 0) ..<
          first_gid (atlas_registry ?fs (unique_image_paths ?ltd) ! 0)
          + cols (atlas_registry ?fs (unique_image_paths ?ltd) ! 0) * rows (atlas_registry ?fs (unique_image_paths ?ltd) ! 0)}
          \<inter> {first_gid (atlas_registry ?fs (unique_image_paths ?ltd) ! 1) ..<
          first_gid (atlas_registry ?fs (unique_image_paths ?ltd) ! 1)
          + cols (atlas_registry ?fs (unique_image_paths ?ltd) ! 1) * rows (atlas_registry ?fs (unique_image_paths ?ltd) ! 1)} = {}"
    by simp
  moreover have "map (\<lambda>a. (rel_path a, first_gid a, cols a * rows a))
     (atlas_registry ?fs (unique_image_paths ?ltd)) ! 0 = (''Tilemaps/map.png'', 1, 16)"
    "map (\<lambda>a. (rel_path a, first_gid a, cols a * rows a))
     (atlas_registry ?fs (unique_image_paths ?ltd)) ! 1 = (''Tilemaps/newsandstone.png'', 17, 2)"
    by (simp_all add: ev)
  ultimately have "{1 ..< 1 + (16::int)} \<inter> {17 ..< 17 + 2} = {}"
    using len by simp
  with ev show ?thesis by blast
qed

subsection \<open>Reading past the end of the data\<close>

lemma get8_exhausted:
  "length bin_data \<le> ptr s \<Longrightarrow> get8 bin_data s = (0, s\<lparr>overflows := overflows s + 1\<rparr>)"
  by (simp add: get8_def)

lemma get8_after: "ptr s \<le> length bin_data \<Longrightarrow> snd (get8 bin_data s) = after_reads bin_data 1 s"
  by (simp add: get8_def after_reads_def)

lemma after_reads_ptr: "ptr (after_reads bin_data n s) \<le> length bin_data"
  by (simp add: after_reads_def)

lemma after_reads_0: "ptr s \<le> length bin_data \<Longrightarrow> after_reads bin_data 0 s = s"
  by (simp add: after_reads_def)

lemma after_reads_add:
  "ptr s \<le> length bin_data \<Longrightarrow>
   after_reads bin_data m (after_reads bin_data n s) = after_reads bin_data (n + m) s"
  by (auto simp: after_reads_def min_def max_def)

lemma get8_after_reads:
  assumes "ptr s \<le> length bin_data"
  shows "\<exists>v. get8 bin_data (after_reads bin_data n s) = (v, after_reads bin_data (Suc n) s)"
proof -
  have "snd (get8 bin_data (after_reads bin_data n s)) = after_reads bin_data (Suc n) s"
    using get8_after [of "after_reads bin_data n s" bin_data] after_reads_add [OF assms, of 1 n]
    by (simp add: after_reads_ptr)
  then show ?thesis
    by (metis prod.collapse)
qed

lemma read_cell_after:
  assumes "ptr s \<le> length bin_data"
  shows "snd (read_cell ui tile_defs bin_data layer_name parse_type s)
     = after_reads bin_data (bytes_per_cell parse_type) s"
proof -
  obtain v1 where g1: "get8 bin_data s = (v1, after_reads bin_data (Suc 0) s)"
    using get8_after_reads [OF assms, of 0] by (auto simp: after_reads_0 [OF assms])
  obtain v2 where g2: "get8 bin_data (after_reads bin_data (Suc 0) s)
      = (v2, after_reads bin_data (Suc (Suc 0)) s)"
    using get8_after_reads [OF assms, of "Suc 0"] by auto
  obtain v3 where g3: "get8 bin_data (after_reads bin_data (Suc (Suc 0)) s)
      = (v3, after_reads bin_data (Suc (Suc (Suc 0))) s)"
    using get8_after_reads [OF assms, of "Suc (Suc 0)"] by auto
  show ?thesis
    by (cases parse_type)
      (simp_all add: read_cell_def g1 g2 g3 bytes_per_cell_def eval_nat_numeral)
qed

lemma read_column_after:
  "ptr s \<le> length bin_data \<Longrightarrow>
   snd (read_column ui tile_defs bin_data layer_name parse_type n s)
     = after_reads bin_data (n * bytes_per_cell parse_type) s"
proof (induction n arbitrary: s)
  case 0
  then show ?case by (simp add: after_reads_0)
next
  case (Suc n)
  let ?s' = "snd (read_cell ui tile_defs bin_data layer_name parse_type s)"
  have s': "?s' = after_reads bin_data (bytes_per_cell parse_type) s"
    by (rule read_cell_after [OF Suc.prems])
  have "ptr ?s' \<le> length bin_data"
    by (simp add: s' after_reads_ptr)
  from Suc.IH [OF this] show ?case
    by (simp add: split_beta s' after_reads_add [OF Suc.prems])
qed

lemma read_columns_after:
  "ptr s \<le> length bin_data \<Longrightarrow>
   snd (read_columns ui tile_defs bin_data layer_name parse_type n height s)
     = after_reads bin_data (n * height * bytes_per_cell parse_type) s"
proof (induction n arbitrary: s)
  case 0
  then show ?case by (simp add: after_reads_0)
next
  case (Suc n)
  let ?s' = "snd (read_column ui tile_defs bin_data layer_name parse_type height s)"
  have s': "?s' = after_reads bin_data (height * bytes_per_cell parse_type) s"
    by (rule read_column_after [OF Suc.prems])
  have "ptr ?s' \<le> length bin_data"
    by (simp add: s' after_reads_ptr)
  from Suc.IH [OF this] show ?case
    by (simp add: split_beta s' after_reads_add [OF Suc.prems] algebra_simps)
qed

lemma read_layer_after:
  "ptr s \<le> length bin_data \<Longrightarrow>
   snd (read_layer ui tile_defs bin_data layer_name width height s)
     = after_reads bin_data (width * height * bytes_per_cell (LAYER_TYPES_get layer_name)) s"
  using read_columns_after [of s bin_data ui tile_defs layer_name "LAYER_TYPES_get layer_name" width height]
  by (simp add: read_layer_def split_beta)

lemma read_layers_after:
  "ptr s \<le> length bin_data \<Longrightarrow>
   snd (read_layers ui ltd bin_data width height names s)
     = after_reads bin_data
         (sum_list (map (\<lambda>name. width * height * bytes_per_cell (LAYER_TYPES_get name)) names)) s"
proof (induction names arbitrary: s)
  case Nil
  then show ?case by (simp add: after_reads_0)
next
  case (Cons name names)
  let ?s' = "snd (read_layer ui (map_of (ltd name)) bin_data name width height s)"
  have s': "?s' = after_reads bin_data (width * height * bytes_per_cell (LAYER_TYPES_get name)) s"
    by (rule read_layer_after [OF Cons.prems])
  have "ptr ?s' \<le> length bin_data"
    by (simp add: s' after_reads_ptr)
  from Cons.IH [OF this] show ?case
    by (simp add: split_beta s' after_reads_add [OF Cons.prems])
qed

lemma total_bytes_read:
  "sum_list (map (\<lambda>layer_name. k * bytes_per_cell (LAYER_TYPES_get layer_name))
      BINARY_READ_ORDER) = 38 * k"
  by (simp add: BINARY_READ_ORDER_def BINARY_WRITE_ORDER_def LAYER_TYPES_get_def LAYER_TYPES_def bytes_per_cell_def)

lemma convert_reader:
  "out_reader (convert fs ltd bin_data)
     = after_reads bin_data
         (2 + 38 * (out_width (convert fs ltd bin_data) * out_height (convert fs ltd bin_data)))
         \<lparr>ptr = 0, overflows = 0\<rparr>"
proof -
  let ?s0 = "\<lparr>ptr = 0, overflows = 0\<rparr>"
  have p0: "ptr ?s0 \<le> length bin_data"
    by simp
  obtain w where g1: "get8 bin_data ?s0 = (w, after_reads bin_data (Suc 0) ?s0)"
    using get8_after_reads [OF p0, of 0] by (auto simp: after_reads_0 [OF p0])
  obtain h where g2: "get8 bin_data (after_reads bin_data (Suc 0) ?s0)
      = (h, after_reads bin_data (Suc (Suc 0)) ?s0)"
    using get8_after_reads [OF p0, of "Suc 0"] by auto
  have p2: "ptr (after_reads bin_data (Suc (Suc 0)) ?s0) \<le> length bin_data"
    by (rule after_reads_ptr)
  have "snd (read_layers ui ltd bin_data (nat w) (nat h) BINARY_READ_ORDER
          (after_reads bin_data (Suc (Suc 0)) ?s0))
      = after_reads bin_data (Suc (Suc 0) + 38 * (nat w * nat h)) ?s0" for ui
    unfolding read_layers_after [OF p2] total_bytes_read
    by (rule after_reads_add [OF p0])
  then show ?thesis
    by (simp add: convert_def Let_def g1 g2 split_beta)
qed

lemma tile_gid_empty: "tile_gid ui tile_defs layer_name (-1) ax ay flip = 0"
  by (simp add: tile_gid_def)

lemma read_cell_exhausted:
  assumes "length bin_data \<le> ptr s"
  shows "fst (read_cell ui tile_defs bin_data layer_name parse_type s) = 0
    \<and> ptr (snd (read_cell ui tile_defs bin_data layer_name parse_type s)) = ptr s"
  using assms by (cases parse_type) (simp_all add: read_cell_def get8_def tile_gid_empty)

lemma read_column_exhausted:
  "length bin_data \<le> ptr s \<Longrightarrow>
   fst (read_column ui tile_defs bin_data layer_name parse_type n s) = replicate n 0
   \<and> ptr (snd (read_column ui tile_defs bin_data layer_name parse_type n s)) = ptr s"
proof (induction n arbitrary: s)
  case 0
  then show ?case by simp
next
  case (Suc n)
  let ?s' = "snd (read_cell ui tile_defs bin_data layer_name parse_type s)"
  have c: "fst (read_cell ui tile_defs bin_data layer_name parse_type s) = 0" "ptr ?s' = ptr s"
    using read_cell_exhausted [OF Suc.prems] by simp_all
  then have "length bin_data \<le> ptr ?s'"
    using Suc.prems by simp
  from Suc.IH [OF this] c show ?case
    by (simp add: split_beta)
qed

lemma read_columns_exhausted:
  "length bin_data \<le> ptr s \<Longrightarrow>
   fst (read_columns ui tile_defs bin_data layer_name parse_type n height s)
     = replicate n (replicate height 0)
   \<and> ptr (snd (read_columns ui tile_defs bin_data layer_name parse_type n height s)) = ptr s"
proof (induction n arbitrary: s)
  case 0
  then show ?case by simp
next
  case (Suc n)
  let ?s' = "snd (read_column ui tile_defs bin_data layer_name parse_type height s)"
  have c: "fst (read_column ui tile_defs bin_data layer_name parse_type height s) = replicate height 0"
    "ptr ?s' = ptr s"
    using read_column_exhausted [OF Suc.prems] by simp_all
  then have "length bin_data \<le> ptr ?s'"
    using Suc.prems by simp
  from Suc.IH [OF this] c show ?case
    by (simp add: split_beta)
qed

lemma tiled_rows_zero:
  "concat (tiled_rows (replicate width (replicate height 0)) width height)
     = replicate (width * height) 0"
proof -
  have row: "map (\<lambda>x. replicate width (replicate height (0::int)) ! x ! y) [0..<width]
      = replicate width 0" if "y < height" for y
    using that by (simp add: list_eq_iff_nth_eq)
  have "tiled_rows (replicate width (replicate height 0)) width height
      = replicate height (replicate width 0)"
    unfolding tiled_rows_def by (rule nth_equalityI) (simp_all add: row)
  moreover have "concat (replicate k (replicate m (0::int))) = replicate (m * k) 0" for k m
    by (induction k) (simp_all add: replicate_add)
  ultimately show ?thesis by simp
qed

lemma read_layer_exhausted:
  "length bin_data \<le> ptr s \<Longrightarrow>
   fst (read_layer ui tile_defs bin_data layer_name width height s) = replicate (width * height) 0"
  using read_columns_exhausted [of bin_data s ui tile_defs layer_name "LAYER_TYPES_get layer_name" width height]
  by (simp add: read_layer_def split_beta tiled_rows_zero)

lemma get8_padded:
  assumes "same_position bin_data s s'"
  shows "fst (get8 (bin_data @ replicate k 0) s') = fst (get8 bin_data s)
    \<and> same_position bin_data (snd (get8 bin_data s)) (snd (get8 (bin_data @ replicate k 0) s'))"
proof (cases "ptr s < length bin_data")
  case True
  with assms have "ptr s' = ptr s"
    by (simp add: same_position_def)
  with True show ?thesis
    by (auto simp: get8_def same_position_def nth_append)
next
  case False
  with assms have "length bin_data \<le> ptr s'"
    by (simp add: same_position_def)
  with False show ?thesis
    by (auto simp: get8_def same_position_def nth_append)
qed

lemma read_cell_padded:
  assumes "same_position bin_data s s'"
  shows "fst (read_cell ui tile_defs (bin_data @ replicate k 0) layer_name parse_type s')
      = fst (read_cell ui tile_defs bin_data layer_name parse_type s)
    \<and> same_position bin_data (snd (read_cell ui tile_defs bin_data layer_name parse_type s))
        (snd (read_cell ui tile_defs (bin_data @ replicate k 0) layer_name parse_type s'))"
proof -
  let ?pad = "bin_data @ replicate k 0"
  note g1 = get8_padded [OF assms, of k]
  note g2 = get8_padded [OF conjunct2 [OF g1], of k]
  note g3 = get8_padded [OF conjunct2 [OF g2], of k]
  show ?thesis
    using g1 g2 g3 by (cases parse_type) (simp_all add: read_cell_def split_beta)
qed

lemma read_column_padded:
  "same_position bin_data s s' \<Longrightarrow>
   fst (read_column ui tile_defs (bin_data @ replicate k 0) layer_name parse_type n s')
      = fst (read_column ui tile_defs bin_data layer_name parse_type n s)
    \<and> same_position bin_data (snd (read_column ui tile_defs bin_data layer_name parse_type n s))
        (snd (read_column ui tile_defs (bin_data @ replicate k 0) layer_name parse_type n s'))"
proof (induction n arbitrary: s s')
  case 0
  then show ?case by simp
next
  case (Suc n)
  note c = read_cell_padded [OF Suc.prems, of ui tile_defs k layer_name parse_type]
  from Suc.IH [OF conjunct2 [OF c]] c show ?case
    by (simp add: split_beta)
qed

lemma read_columns_padded:
  "same_position bin_data s s' \<Longrightarrow>
   fst (read_columns ui tile_defs (bin_data @ replicate k 0) layer_name parse_type n height s')
      = fst (read_columns ui tile_defs bin_data layer_name parse_type n height s)
    \<and> same_position bin_data
        (snd (read_columns ui tile_defs bin_data layer_name parse_type n height s))
        (snd (read_columns ui tile_defs (bin_data @ replicate k 0) layer_name parse_type n height s'))"
proof (induction n arbitrary: s s')
  case 0
  then show ?case by simp
next
  case (Suc n)
  note c = read_column_padded [OF Suc.prems, of ui tile_defs k layer_name parse_type height]
  from Suc.IH [OF conjunct2 [OF c]] c show ?case
    by (simp add: split_beta)
qed

lemma read_layer_padded:
  assumes "same_position bin_data s s'"
  shows "fst (read_layer ui tile_defs (bin_data @ replicate k 0) layer_name width height s')
      = fst (read_layer ui tile_defs bin_data layer_name width height s)
    \<and> same_position bin_data (snd (read_layer ui tile_defs bin_data layer_name width height s))
        (snd (read_layer ui tile_defs (bin_data @ replicate k 0) layer_name width height s'))"
  using read_columns_padded [OF assms, of ui tile_defs k layer_name "LAYER_TYPES_get layer_name"
      width height]
  by (simp add: read_layer_def split_beta)

lemma read_layers_padded:
  "same_position bin_data s s' \<Longrightarrow>
   fst (read_layers ui ltd (bin_data @ replicate k 0) width height names s')
      = fst (read_layers ui ltd bin_data width height names s)"
proof (induction names arbitrary: s s')
  case Nil
  then show ?case by simp
next
  case (Cons name names)
  note c = read_layer_padded [OF Cons.prems, of ui "map_of (ltd name)" k name width height]
  from Cons.IH [OF conjunct2 [OF c]] c show ?case
    by (simp add: split_beta)
qed

lemma convert_padded:
  "map_written (convert fs ltd (bin_data @ replicate k 0)) = map_written (convert fs ltd bin_data)"
proof -
  let ?s0 = "\<lparr>ptr = 0, overflows = 0\<rparr>"
  let ?pad = "bin_data @ replicate k 0"
  have p0: "same_position bin_data ?s0 ?s0"
    by (simp add: same_position_def)
  note g1 = get8_padded [OF p0, of k]
  note g2 = get8_padded [OF conjunct2 [OF g1], of k]
  note r = read_layers_padded [OF conjunct2 [OF g2], of _ ltd k]
  show ?thesis
    using g1 g2 r by (simp add: map_written_def convert_def Let_def split_beta)
qed

lemma read_layers_names:
  "map fst (fst (read_layers ui ltd bin_data width height names s)) = names"
  by (induction names arbitrary: s) (simp_all add: split_beta)

lemma tiled_rows_length:
  "length (concat (tiled_rows layer_gids width height)) = width * height"
  by (simp add: tiled_rows_def length_concat comp_def sum_list_triv)

lemma read_layers_lengths:
  "(name, flat) \<in> set (fst (read_layers ui ltd bin_data width height names s)) \<Longrightarrow>
   length flat = width * height"
  by (induction names arbitrary: s) (auto simp: split_beta read_layer_def tiled_rows_length)

lemma convert_layers:
  "map fst (out_layers (convert fs ltd bin_data)) = BINARY_READ_ORDER
   \<and> (\<forall>flat \<in> snd ` set (out_layers (convert fs ltd bin_data)).
        length flat = out_width (convert fs ltd bin_data) * out_height (convert fs ltd bin_data))"
  by (auto simp: convert_def Let_def split_beta read_layers_names dest: read_layers_lengths)

lemma convert_reads:
  "out_registry (convert fs ltd bin_data) = atlas_registry fs (unique_image_paths ltd)
   \<and> out_layers (convert fs ltd bin_data) =
       fst (read_layers (unique_images_get (out_registry (convert fs ltd bin_data))) ltd bin_data
             (out_width (convert fs ltd bin_data)) (out_height (convert fs ltd bin_data))
             BINARY_READ_ORDER (after_reads bin_data 2 \<lparr>ptr = 0, overflows = 0\<rparr>))"
proof -
  let ?s0 = "\<lparr>ptr = 0, overflows = 0\<rparr>"
  have p0: "ptr ?s0 \<le> length bin_data"
    by simp
  obtain w where g1: "get8 bin_data ?s0 = (w, after_reads bin_data (Suc 0) ?s0)"
    using get8_after_reads [OF p0, of 0] by (auto simp: after_reads_0 [OF p0])
  obtain h where g2: "get8 bin_data (after_reads bin_data (Suc 0) ?s0)
      = (h, after_reads bin_data (Suc (Suc 0)) ?s0)"
    using get8_after_reads [OF p0, of "Suc 0"] by auto
  show ?thesis
    by (simp add: convert_def Let_def g1 g2 split_beta numeral_2_eq_2)
qed

text \<open>
  Claim C8, as amended. Once the cursor has reached the end of the data, \<^verbatim>\<open>get8\<close>
  returns 0, leaves the cursor where it is and prints one more line \<^verbatim>\<open>OVERFLOW PTR !!\<close>;
  so every later read returns 0 too, a cell read from there has GID 0 and a layer read
  from there is all zeros. The conversion of a truncated stream is the conversion of the
  same stream followed by zero bytes: the width, the height, the registry and every layer
  of the map that is written are the same, and the layers are the 17 of the reading
  order, each of \<open>width * height\<close> cells, decoded by the reading loop from byte 2 on. The
  number of lines printed is the number of bytes that were missing,
  \<open>2 + 38 * width * height - length bin_data\<close>, so a line was printed if and only if the
  stream was truncated. That the conversion completes is not asserted, and the caller
  gets no sign of the truncation: the console is the only report.
\<close>

theorem truncated_input_reads_as_zero_padded:
  "(length bin_data \<le> ptr s \<longrightarrow>
      get8 bin_data s = (0, s\<lparr>overflows := overflows s + 1\<rparr>))
   \<and> (length bin_data \<le> ptr s \<longrightarrow>
      fst (read_cell ui tile_defs bin_data layer_name parse_type s) = 0
      \<and> length bin_data \<le> ptr (snd (read_cell ui tile_defs bin_data layer_name parse_type s)))
   \<and> (length bin_data \<le> ptr s \<longrightarrow>
      fst (read_layer ui tile_defs bin_data layer_name width height s)
        = replicate (width * height) 0)
   \<and> map_written (convert fs ltd (bin_data @ replicate k 0)) = map_written (convert fs ltd bin_data)
   \<and> map fst (out_layers (convert fs ltd bin_data)) = BINARY_READ_ORDER
   \<and> (\<forall>flat \<in> snd ` set (out_layers (convert fs ltd bin_data)).
        length flat = out_width (convert fs ltd bin_data) * out_height (convert fs ltd bin_data))
   \<and> out_registry (convert fs ltd bin_data) = atlas_registry fs (unique_image_paths ltd)
   \<and> out_layers (convert fs ltd bin_data) =
       fst (read_layers (unique_images_get (out_registry (convert fs ltd bin_data))) ltd bin_data
             (out_width (convert fs ltd bin_data)) (out_height (convert fs ltd bin_data))
             BINARY_READ_ORDER (after_reads bin_data 2 \<lparr>ptr = 0, overflows = 0\<rparr>))
   \<and> overflows (out_reader (convert fs ltd bin_data))
       = 2 + 38 * (out_width (convert fs ltd bin_data) * out_height (convert fs ltd bin_data))
         - length bin_data
   \<and> (0 < overflows (out_reader (convert fs ltd bin_data))
       \<longleftrightarrow> length bin_data
            < 2 + 38 * (out_width (convert fs ltd bin_data) * out_height (convert fs ltd bin_data)))"
proof -
  have count: "overflows (out_reader (convert fs ltd bin_data))
       = 2 + 38 * (out_width (convert fs ltd bin_data) * out_height (convert fs ltd bin_data))
         - length bin_data"
    unfolding convert_reader [of fs ltd bin_data] by (simp add: after_reads_def)
  have past: "length bin_data \<le> ptr s \<longrightarrow>
      fst (read_cell ui tile_defs bin_data layer_name parse_type s) = 0
      \<and> length bin_data \<le> ptr (snd (read_cell ui tile_defs bin_data layer_name parse_type s))"
    using read_cell_exhausted [of bin_data s ui tile_defs layer_name parse_type] by simp
  have iff: "0 < overflows (out_reader (convert fs ltd bin_data))
       \<longleftrightarrow> length bin_data
            < 2 + 38 * (out_width (convert fs ltd bin_data) * out_height (convert fs ltd bin_data))"
    unfolding count by simp
  show ?thesis
    using count past iff convert_padded [of fs ltd bin_data k] convert_layers [of fs ltd bin_data]
      convert_reads [of fs ltd bin_data]
    by (simp add: get8_exhausted read_layer_exhausted)
qed

text \<open>
  A level of one cell whose stream ends inside the cell of layer \<open>Map\<close>, after 14 of its
  40 bytes: the tile index of that cell is read, its two offsets are read as 0, and its
  GID is 1 as in the stream completed with 26 zero bytes; 26 reads past the end are
  reported.
\<close>

theorem truncated_input_witness:
  "get8 ([1, 1] @ replicate 11 0 @ [1]) \<lparr>ptr = 14, overflows = 0\<rparr> = (0, \<lparr>ptr = 14, overflows = 1\<rparr>)
   \<and> fst (read_cell Map.empty Map.empty ([1, 1] @ replicate 11 0 @ [1]) ''Map'' TYPE_AUTOTILE
        \<lparr>ptr = 14, overflows = 0\<rparr>) = 0
   \<and> fst (read_layer Map.empty Map.empty ([1, 1] @ replicate 11 0 @ [1]) ''Map'' 2 3
        \<lparr>ptr = 14, overflows = 0\<rparr>) = [0, 0, 0, 0, 0, 0]
   \<and> map_written (convert
        (\<lambda>p. if p = ''Tilemaps/map.png'' then Png 512 512 else Missing)
        (\<lambda>l. if l = ''Map'' then [(0, \<lparr>godot_id = 0, texture_path = ''Tilemaps/map.png'',
              region = (0, 0, 128, 128), stride = (128, 128), tile_mode = 0\<rparr>)] else [])
        (([1, 1] @ replicate 11 0 @ [1]) @ replicate 26 0))
     = map_written (convert
        (\<lambda>p. if p = ''Tilemaps/map.png'' then Png 512 512 else Missing)
        (\<lambda>l. if l = ''Map'' then [(0, \<lparr>godot_id = 0, texture_path = ''Tilemaps/map.png'',
              region = (0, 0, 128, 128), stride = (128, 128), tile_mode = 0\<rparr>)] else [])
        ([1, 1] @ replicate 11 0 @ [1]))
   \<and> map_of (out_layers (convert
        (\<lambda>p. if p = ''Tilemaps/map.png'' then Png 512 512 else Missing)
        (\<lambda>l. if l = ''Map'' then [(0, \<lparr>godot_id = 0, texture_path = ''Tilemaps/map.png'',
              region = (0, 0, 128, 128), stride = (128, 128), tile_mode = 0\<rparr>)] else [])
        ([1, 1] @ replicate 11 0 @ [1]))) ''Map'' = Some [1]
   \<and> overflows (out_reader (convert
        (\<lambda>p. if p = ''Tilemaps/map.png'' then Png 512 512 else Missing)
        (\<lambda>l. if l = ''Map'' then [(0, \<lparr>godot_id = 0, texture_path = ''Tilemaps/map.png'',
              region = (0, 0, 128, 128), stride = (128, 128), tile_mode = 0\<rparr>)] else [])
        ([1, 1] @ replicate 11 0 @ [1]))) = 26"
proof -
  let ?fs = "\<lambda>p. if p = ''Tilemaps/map.png'' then Png 512 512 else Missing"
  let ?ltd = "\<lambda>l. if l = ''Map'' then [(0::int, \<lparr>godot_id = 0, texture_path = ''Tilemaps/map.png'',
              region = (0, 0, 128, 128), stride = (128, 128), tile_mode = 0\<rparr>)] else []"
  let ?data = "[1, 1] @ replicate 11 0 @ [1 :: byte]"
  have ev: "out_width (convert ?fs ?ltd ?data) = 1" "out_height (convert ?fs ?ltd ?data) = 1"
    "map_of (out_layers (convert ?fs ?ltd ?data)) ''Map'' = Some [1]"
    by code_simp+
  have len: "length ?data = 14"
    by simp
  show ?thesis
    using truncated_input_reads_as_zero_padded [of ?data "\<lparr>ptr = 14, overflows = 0\<rparr>"
        Map.empty Map.empty "''Map''" TYPE_AUTOTILE 2 3 ?fs ?ltd 26] ev len
    by (simp add: numeral_eq_Suc)
qed

text \<open>
  Claim C8 as stated fails in its last part, that the caller can detect the truncation.
  The level of the witness, cut after 16 of its 40 bytes, and the same level completed
  with 24 zero bytes give the same map: the same width, height, registry and layers.
  What differs is the console alone, 24 lines against none, and \<^verbatim>\<open>convert\<close> returns
  nothing.
\<close>

theorem truncation_not_visible_in_map:
  "map_written (convert
        (\<lambda>p. if p = ''Tilemaps/map.png'' then Png 512 512 else Missing)
        (\<lambda>l. if l = ''Map'' then [(0, \<lparr>godot_id = 0, texture_path = ''Tilemaps/map.png'',
              region = (0, 0, 128, 128), stride = (128, 128), tile_mode = 0\<rparr>)] else [])
        ([1, 1] @ replicate 11 0 @ [1, 0, 0]))
     = map_written (convert
        (\<lambda>p. if p = ''Tilemaps/map.png'' then Png 512 512 else Missing)
        (\<lambda>l. if l = ''Map'' then [(0, \<lparr>godot_id = 0, texture_path = ''Tilemaps/map.png'',
              region = (0, 0, 128, 128), stride = (128, 128), tile_mode = 0\<rparr>)] else [])
        ([1, 1] @ replicate 11 0 @ [1, 0, 0] @ replicate 24 0))
   \<and> overflows (out_reader (convert
        (\<lambda>p. if p = ''Tilemaps/map.png'' then Png 512 512 else Missing)
        (\<lambda>l. if l = ''Map'' then [(0, \<lparr>godot_id = 0, texture_path = ''Tilemaps/map.png'',
              region = (0, 0, 128, 128), stride = (128, 128), tile_mode = 0\<rparr>)] else [])
        ([1, 1] @ replicate 11 0 @ [1, 0, 0]))) = 24
   \<and> overflows (out_reader (convert
        (\<lambda>p. if p = ''Tilemaps/map.png'' then Png 512 512 else Missing)
        (\<lambda>l. if l = ''Map'' then [(0, \<lparr>godot_id = 0, texture_path = ''Tilemaps/map.png'',
              region = (0, 0, 128, 128), stride = (128, 128), tile_mode = 0\<rparr>)] else [])
        ([1, 1] @ replicate 11 0 @ [1, 0, 0] @ replicate 24 0))) = 0
   \<and> map_of (out_layers (convert
        (\<lambda>p. if p = ''Tilemaps/map.png'' then Png 512 512 else Missing)
        (\<lambda>l. if l = ''Map'' then [(0, \<lparr>godot_id = 0, texture_path = ''Tilemaps/map.png'',
              region = (0, 0, 128, 128), stride = (128, 128), tile_mode = 0\<rparr>)] else [])
        ([1, 1] @ replicate 11 0 @ [1, 0, 0]))) ''Map'' = Some [1]"
  by code_simp

subsection \<open>The range of the GIDs\<close>

text \<open>
  Claim C3 fails on the code. The bounds test of line 391 has no lower bound, so a tile
  definition whose region starts left of the image gives a negative grid column and a GID
  below the atlas's range. Here the image \<^verbatim>\<open>Tilemaps/map.png\<close> (512 by 512 pixels) is the
  first atlas, with GIDs 1 to 16; tile 0 of layer \<open>Map\<close> has the region
  \<^verbatim>\<open>Rect2(-256, 0, 128, 128)\<close>; the level is one cell wide and high, and its cell of
  layer \<open>Map\<close> holds the bytes 1, 0, 0. The GID written for that cell is \<open>-1\<close>.
\<close>

theorem negative_region_origin_gives_negative_gid:
  "map_of (out_layers (convert
      (\<lambda>p. if p = ''Tilemaps/map.png'' then Png 512 512 else Missing)
      (\<lambda>l. if l = ''Map'' then [(0, \<lparr>godot_id = 0, texture_path = ''Tilemaps/map.png'',
               region = (-256, 0, 128, 128), stride = (128, 128), tile_mode = 0\<rparr>)] else [])
      ([1, 1] @ replicate 11 0 @ [1, 0, 0]))) ''Map'' = Some [-1]"
  by code_simp

text \<open>
  The icon layer has a second way out of every range: when the image of its atlas is
  missing, the atlas has no tile, and the fallback of line 375 still gives its \<open>firstgid\<close>.
  Here that atlas is the only one, with \<open>firstgid\<close> 1 and no tile, and the cell of layer
  \<open>spawnmarker\<close> holds the byte 1: its GID is 1.
\<close>

lemma icon_fallback_outside_empty_atlas:
  "map_of (out_layers (convert (\<lambda>p. Missing) (\<lambda>l. [])
      ([1, 1] @ replicate 34 0 @ [1]))) ''spawnmarker'' = Some [1]
   \<and> map (\<lambda>a. (first_gid a, cols a * rows a)) (out_registry (convert (\<lambda>p. Missing) (\<lambda>l. [])
      ([1, 1] @ replicate 34 0 @ [1]))) = [(1, 0)]"
  by code_simp

subsection \<open>The order of the cells in the stream\<close>

lemma read_column_length:
  "length (fst (read_column ui tile_defs bin_data layer_name parse_type n s)) = n"
  by (induction n arbitrary: s) (simp_all add: split_beta)

lemma read_columns_length:
  "length (fst (read_columns ui tile_defs bin_data layer_name parse_type w h s)) = w"
  by (induction w arbitrary: s) (simp_all add: split_beta)

lemma read_columns_uniform:
  "col \<in> set (fst (read_columns ui tile_defs bin_data layer_name parse_type w h s)) \<Longrightarrow>
   length col = h"
  by (induction w arbitrary: s) (auto simp: split_beta read_column_length)

lemma read_column_add:
  "read_column ui tile_defs bin_data layer_name parse_type (a + b) s =
     (case read_column ui tile_defs bin_data layer_name parse_type a s of (xs, s') \<Rightarrow>
       (case read_column ui tile_defs bin_data layer_name parse_type b s' of (ys, s'') \<Rightarrow>
         (xs @ ys, s'')))"
  by (induction a arbitrary: s) (simp_all add: split_beta)

lemma read_columns_stream:
  "read_column ui tile_defs bin_data layer_name parse_type (w * h) s =
     (case read_columns ui tile_defs bin_data layer_name parse_type w h s of
        (layer_gids, s') \<Rightarrow> (concat layer_gids, s'))"
  by (induction w arbitrary: s) (simp_all add: split_beta read_column_add)

lemma concat_nth_uniform:
  "(\<And>l. l \<in> set xss \<Longrightarrow> length l = h) \<Longrightarrow> x < length xss \<Longrightarrow> y < h \<Longrightarrow>
   concat xss ! (x * h + y) = xss ! x ! y"
proof (induction xss arbitrary: x)
  case Nil
  then show ?case by simp
next
  case (Cons l xss)
  have l: "length l = h" using Cons.prems(1) by simp
  show ?case
  proof (cases x)
    case 0
    then show ?thesis using l Cons.prems(3) by (simp add: nth_append)
  next
    case (Suc k)
    with Cons.prems have "concat xss ! (k * h + y) = xss ! k ! y"
      by (intro Cons.IH) auto
    then show ?thesis using l Suc by (simp add: nth_append)
  qed
qed

lemma tiled_rows_nth:
  assumes "x < width" "y < height"
  shows "concat (tiled_rows layer_gids width height) ! (y * width + x) = layer_gids ! x ! y"
proof -
  have "concat (tiled_rows layer_gids width height) ! (y * width + x)
      = tiled_rows layer_gids width height ! y ! x"
    by (rule concat_nth_uniform) (use assms in \<open>auto simp: tiled_rows_def\<close>)
  then show ?thesis using assms by (simp add: tiled_rows_def)
qed

lemma forward_transposition:
  assumes "x < width" "y < height"
  shows "fst (read_layer ui tile_defs bin_data layer_name width height s) ! (y * width + x)
    = fst (read_column ui tile_defs bin_data layer_name (LAYER_TYPES_get layer_name)
            (width * height) s) ! (x * height + y)"
proof -
  let ?g = "fst (read_columns ui tile_defs bin_data layer_name (LAYER_TYPES_get layer_name) width height s)"
  have "concat ?g ! (x * height + y) = ?g ! x ! y"
    by (rule concat_nth_uniform) (use assms in \<open>auto simp: read_columns_length dest: read_columns_uniform\<close>)
  then show ?thesis
    using tiled_rows_nth [OF assms, of ?g]
    by (simp add: read_layer_def read_columns_stream split_beta)
qed

text \<open>
  Claim C4: the cells of a layer are read from the binary stream column by column; the
  cell read at position \<open>x * height + y\<close> of the stream is the element \<open>y * width + x\<close> of
  the flat array of the interchange layer. The reverse codec puts element \<open>i\<close> of the flat
  array at column \<open>i mod width\<close> and row \<open>i div width\<close> of its grid, and writes the grid
  column by column, so that the cell written for column \<open>x\<close> and row \<open>y\<close> is the one
  decoded from element \<open>y * width + x\<close> (a cell beyond the end of a short array is 0).
\<close>

theorem column_major_row_major_transposition:
  fixes width height :: nat
  shows "(x < width \<and> y < height \<longrightarrow>
      fst (read_layer ui tile_defs bin_data layer_name width height s) ! (y * width + x)
        = fst (read_column ui tile_defs bin_data layer_name (LAYER_TYPES_get layer_name)
                (width * height) s) ! (x * height + y))
   \<and> (0 < width \<longrightarrow> (\<exists>grid. build_grid (int width) (int height) gids = Inr grid))
   \<and> (build_grid (int width) (int height) gids = Inr grid \<and> 0 < width
        \<and> i < length gids \<and> i div width < height \<longrightarrow>
        grid ! (i mod width) ! (i div width) = gids ! i)
   \<and> (build_grid (int width) (int height) gids = Inr grid \<and> 0 < width \<longrightarrow>
        write_layer (int width) (int height) tilesets defs layer_name layer_ty (Some grid) =
          run_all (map (\<lambda>x. run_all (map (\<lambda>y.
            write_cell tilesets defs layer_name layer_ty
              (if y * width + x < length gids then gids ! (y * width + x) else 0))
            [0..<height])) [0..<width]))"
  using forward_transposition [of x width y height ui tile_defs bin_data layer_name s]
    build_grid_spec [of width height gids]
    reverse_transposition [of width height gids grid i]
    write_layer_transposed [of width height gids grid tilesets defs layer_name layer_ty]
  by blast

text \<open>
  A layer two cells wide and high: the stream holds the cells with GIDs 1, 2, 3, 4, the
  flat array is 1, 3, 2, 4, and the grid built from that array has the columns 1, 2 and
  3, 4 again.
\<close>

theorem column_major_row_major_witness:
  "fst (read_layer
     [spawn_icon_path \<mapsto> \<lparr>rel_path = spawn_icon_path, pixel_width = 512, pixel_height = 512,
        first_gid = 1, cols = 4, rows = 4\<rparr>]
     Map.empty [1, 2, 3, 4] ''spawnmarker'' 2 2 \<lparr>ptr = 0, overflows = 0\<rparr>) = [1, 3, 2, 4]
   \<and> fst (read_column
     [spawn_icon_path \<mapsto> \<lparr>rel_path = spawn_icon_path, pixel_width = 512, pixel_height = 512,
        first_gid = 1, cols = 4, rows = 4\<rparr>]
     Map.empty [1, 2, 3, 4] ''spawnmarker'' (LAYER_TYPES_get ''spawnmarker'') (2 * 2)
     \<lparr>ptr = 0, overflows = 0\<rparr>) = [1, 2, 3, 4]
   \<and> [1, 3, 2, 4] ! (0 * 2 + 1) = [1, 2, 3, 4 :: int] ! (1 * 2 + 0)
   \<and> build_grid 2 2 [1, 3, 2, 4] = Inr [[1, 2], [3, 4]]
   \<and> [[1, 2], [3, 4 :: int]] ! (1 mod 2) ! (1 div 2) = [1, 3, 2, 4] ! 1"
proof -
  let ?ui = "[spawn_icon_path \<mapsto> \<lparr>rel_path = spawn_icon_path, pixel_width = 512,
        pixel_height = 512, first_gid = 1, cols = 4, rows = 4\<rparr>]"
  have flat: "fst (read_layer ?ui Map.empty [1, 2, 3, 4] ''spawnmarker'' 2 2
      \<lparr>ptr = 0, overflows = 0\<rparr>) = [1, 3, 2, 4]"
    by code_simp
  have stream: "fst (read_column ?ui Map.empty [1, 2, 3, 4] ''spawnmarker''
      (LAYER_TYPES_get ''spawnmarker'') (2 * 2) \<lparr>ptr = 0, overflows = 0\<rparr>) = [1, 2, 3, 4]"
    by code_simp
  have grid: "build_grid 2 2 [1, 3, 2, 4] = Inr [[1, 2], [3, 4]]"
    by code_simp
  show ?thesis
    using flat stream grid
      column_major_row_major_transposition [of 1 2 0 2 ?ui Map.empty "[1, 2, 3, 4]"
        "''spawnmarker''" "\<lparr>ptr = 0, overflows = 0\<rparr>" "[1, 3, 2, 4]" "[[1, 2], [3, 4]]" 1]
    by simp
qed

section \<open>The two codecs together\<close>

lemma py_round_of_int: "py_round (of_int n) = n"
  by (simp add: py_round_def)

text \<open>
  Claim C1, as amended. The tile definition has id 5, region \<open>(0, 0, 128, 128)\<close> and stride
  \<open>(128, 128)\<close>; its atlas has \<open>firstgid\<close> 1, 4 columns and at least one row. Provided the
  definition's \<open>tile_mode\<close> is positive (autotile or atlas), the bytes 6, 2, 0 read on a
  \<open>TYPE_AUTOTILE\<close> layer give GID 3. The pixel \<open>(256, 0)\<close> of GID 3 lies outside the
  region, so the reverse lookup finds no definition: on layer \<open>Mapbackground\<close> the
  fallback to the first definition, with the grid coordinate as the offset, writes
  6, 2, 0 again; on every other \<open>TYPE_AUTOTILE\<close> layer the cell is written as 0, 0, 0.
\<close>

theorem concrete_scenario_amended:
  assumes "godot_id d = 5" and "region d = (0, 0, 128, 128)" and "stride d = (128, 128)"
    and "0 < tile_mode d" and "tile_defs 5 = Some d"
    and "unique_images (texture_path d) = Some img_ts"
    and "first_gid img_ts = 1" and "cols img_ts = 4" and "1 \<le> rows img_ts"
    and "layer_name \<noteq> ''spawnmarker''"
    and "firstgid ts = 1" and "columns ts = 4"
  shows "read_cell unique_images tile_defs [6, 2, 0] layer_name TYPE_AUTOTILE \<lparr>ptr = 0, overflows = 0\<rparr>
           = (3, \<lparr>ptr = 3, overflows = 0\<rparr>)
       \<and> write_cell [ts] [TileDefinition.truncate d] ''Mapbackground'' TYPE_AUTOTILE 3 = Inr [6, 2, 0]
       \<and> (layer_name \<noteq> ''Mapbackground'' \<longrightarrow>
            write_cell [ts] [TileDefinition.truncate d] layer_name TYPE_AUTOTILE 3 = Inr [0, 0, 0])"
proof -
  have r2: "py_round 2 = 2" and r0: "py_round 0 = 0"
    using py_round_of_int [of 2] py_round_of_int [of 0] by simp_all
  have fwd: "read_cell unique_images tile_defs [6, 2, 0] layer_name TYPE_AUTOTILE \<lparr>ptr = 0, overflows = 0\<rparr>
           = (3, \<lparr>ptr = 3, overflows = 0\<rparr>)"
    using assms by (simp add: read_cell_def get8_def tile_gid_def TILE_SIZE_def r2 r0)
  have m: "masked_gid 3 = 3" and f: "\<not> flipped_h 3"
    by (simp_all add: masked_gid_def GID_MASK_def flipped_h_def FLIPPED_HORIZONTALLY_FLAG_def)
  define t where "t = TileDefinition.truncate d"
  have t: "godot_id t = 5" "region t = (0, 0, 128, 128)"
    using assms by (simp_all add: t_def TileDefinition.truncate_def)
  have nomatch: "get_godot_tile_from_pixel [t] tp 256 0 = Inr (None, 0, 0)" for tp
    using t by (simp add: get_godot_tile_from_pixel_def in_region_def)
  have grid: "img_grid ts 2 = (2, 0)"
    using assms by (simp add: img_grid_def)
  have res: "resolve_gid [ts] [t] l 3 =
      (if l = ''spawnmarker'' then Inr (3, 0, 0) else if l = ''Mapbackground'' then Inr (6, 2, 0) else Inr (0, 0, 0))" for l
    using assms t by (simp add: resolve_gid_def find_tileset_def grid nomatch TILE_SIZE_def)
  have "write_cell [ts] [t] ''Mapbackground'' TYPE_AUTOTILE 3 = Inr [6, 2, 0]"
    by (simp add: write_cell_def m f res emit_cell_def pack_B_def)
  moreover have "layer_name \<noteq> ''Mapbackground'' \<longrightarrow>
      write_cell [ts] [t] layer_name TYPE_AUTOTILE 3 = Inr [0, 0, 0]"
    using assms by (simp add: write_cell_def m f res emit_cell_def pack_B_def)
  ultimately show ?thesis
    using fwd unfolding t_def by blast
qed

theorem concrete_scenario_witness:
  "read_cell
     [''Tilemaps/map.png'' \<mapsto> \<lparr>rel_path = ''Tilemaps/map.png'', pixel_width = 512,
        pixel_height = 128, first_gid = 1, cols = 4, rows = 1\<rparr>]
     [5 \<mapsto> \<lparr>godot_id = 5, texture_path = ''Tilemaps/map.png'', region = (0, 0, 128, 128),
        stride = (128, 128), tile_mode = 1\<rparr>]
     [6, 2, 0] ''Map'' TYPE_AUTOTILE \<lparr>ptr = 0, overflows = 0\<rparr> = (3, \<lparr>ptr = 3, overflows = 0\<rparr>)
   \<and> write_cell [\<lparr>firstgid = 1, image_path = Some ''Tilemaps/map.png'', columns = 4\<rparr>]
       [\<lparr>godot_id = 5, texture_path = ''Tilemaps/map.png'', region = (0, 0, 128, 128),
         stride = (128, 128)\<rparr>] ''Mapbackground'' TYPE_AUTOTILE 3 = Inr [6, 2, 0]
   \<and> write_cell [\<lparr>firstgid = 1, image_path = Some ''Tilemaps/map.png'', columns = 4\<rparr>]
       [\<lparr>godot_id = 5, texture_path = ''Tilemaps/map.png'', region = (0, 0, 128, 128),
         stride = (128, 128)\<rparr>] ''Map'' TYPE_AUTOTILE 3 = Inr [0, 0, 0]"
  using concrete_scenario_amended [of
      "\<lparr>godot_id = 5, texture_path = ''Tilemaps/map.png'', region = (0, 0, 128, 128),
        stride = (128, 128), tile_mode = 1\<rparr>"
      "[5 \<mapsto> \<lparr>godot_id = 5, texture_path = ''Tilemaps/map.png'', region = (0, 0, 128, 128),
        stride = (128, 128), tile_mode = 1\<rparr>]"
      "[''Tilemaps/map.png'' \<mapsto> \<lparr>rel_path = ''Tilemaps/map.png'', pixel_width = 512,
        pixel_height = 128, first_gid = 1, cols = 4, rows = 1\<rparr>]"
      "\<lparr>rel_path = ''Tilemaps/map.png'', pixel_width = 512,
        pixel_height = 128, first_gid = 1, cols = 4, rows = 1\<rparr>"
      "''Map''"
      "\<lparr>firstgid = 1, image_path = Some ''Tilemaps/map.png'', columns = 4\<rparr>"]
  by (simp add: TileDefinition.truncate_def)

text \<open>
  Claim C1 as stated fails in its second half: on the \<open>TYPE_AUTOTILE\<close> layer \<open>Map\<close>, with
  the atlas and the definition of the scenario, GID 3 is written as 0, 0, 0 and not as
  6, 2, 0.
\<close>

theorem concrete_scenario_reverse_on_Map:
  "LAYER_TYPES_get ''Map'' = TYPE_AUTOTILE
   \<and> write_cell [\<lparr>firstgid = 1, image_path = Some ''Tilemaps/map.png'', columns = 4\<rparr>]
       [\<lparr>godot_id = 5, texture_path = ''Tilemaps/map.png'', region = (0, 0, 128, 128),
         stride = (128, 128)\<rparr>] ''Map'' TYPE_AUTOTILE 3 = Inr [0, 0, 0]
   \<and> write_cell [\<lparr>firstgid = 1, image_path = Some ''Tilemaps/map.png'', columns = 4\<rparr>]
       [\<lparr>godot_id = 5, texture_path = ''Tilemaps/map.png'', region = (0, 0, 128, 128),
         stride = (128, 128)\<rparr>] ''Map'' TYPE_AUTOTILE 3 \<noteq> Inr [6, 2, 0]"
  by code_simp

section \<open>The order of the reverse lookup\<close>

text \<open>
  What \<^verbatim>\<open>get_godot_tile_from_pixel\<close> does with the list it is given: the definition it
  returns is the first of the list that passes the path test and whose region contains
  the pixel.
\<close>

lemma search_defs_first_match:
  "search_defs defs tp pixel_x pixel_y = Inr (Some gid, ax, ay) \<Longrightarrow>
   \<exists>pre d post. defs = pre @ d # post \<and> godot_id d = gid
     \<and> \<not> path_rejected tp (texture_path d) \<and> in_region (region d) pixel_x pixel_y
     \<and> (\<forall>e \<in> set pre. path_rejected tp (texture_path e) \<or> \<not> in_region (region e) pixel_x pixel_y)"
proof (induction defs)
  case Nil
  then show ?case by simp
next
  case (Cons d ds)
  show ?case
  proof (cases "\<not> path_rejected tp (texture_path d) \<and> in_region (region d) pixel_x pixel_y")
    case True
    with Cons.prems have "godot_id d = gid"
      by (auto split: prod.splits if_splits)
    with True show ?thesis
      by (intro exI [of _ "[]"] exI [of _ d] exI [of _ ds]) simp
  next
    case False
    with Cons.prems have "search_defs ds tp pixel_x pixel_y = Inr (Some gid, ax, ay)"
      by (auto split: if_splits)
    from Cons.IH [OF this] obtain pre e post where
      "ds = pre @ e # post" "godot_id e = gid" "\<not> path_rejected tp (texture_path e)"
      "in_region (region e) pixel_x pixel_y"
      "\<forall>e \<in> set pre. path_rejected tp (texture_path e) \<or> \<not> in_region (region e) pixel_x pixel_y"
      by blast
    with False show ?thesis
      by (intro exI [of _ "d # pre"] exI [of _ e] exI [of _ post]) auto
  qed
qed

text \<open>
  Claim C2 fails on the code. The list of a layer's definitions is built by iterating over
  a \<^verbatim>\<open>set\<close> of the id strings (lines 73 and 74), so its order is the interpreter's order
  of that set, not the order of the resource text. For a resource that names tile 0 and
  then tile 1, both on the same image with the default region, the pixel \<open>(0, 0)\<close> is
  matched by both: the lookup returns tile 0 when the set is enumerated as 0, 1 and
  tile 1 when it is enumerated as 1, 0; both are enumerations of the same set.
\<close>

theorem first_match_follows_set_iteration:
  "get_godot_tile_from_pixel
     (parse_tile_definitions_from_string id [''0'', ''1''] (\<lambda>_. Some 1) (\<lambda>_. None) (\<lambda>_. None)
        [1 \<mapsto> ''Tilemaps/map.png''])
     (Some ''Tilemaps/map.png'') 0 0 = Inr (Some 0, 0, 0)
   \<and> get_godot_tile_from_pixel
     (parse_tile_definitions_from_string rev [''0'', ''1''] (\<lambda>_. Some 1) (\<lambda>_. None) (\<lambda>_. None)
        [1 \<mapsto> ''Tilemaps/map.png''])
     (Some ''Tilemaps/map.png'') 0 0 = Inr (Some 1, 0, 0)
   \<and> set_iteration id [''0'', ''1''] \<and> set_iteration rev [''0'', ''1'']"
  by code_simp

end
